theory Spec2Isabelle
  imports
    Main
    "HOL-Library.Word"
    "HOL-Library.Sublist"
    "HOL-Library.Char_ord"
    "HOL-Library.List_Lexorder"
begin

unbundle bit_operations_syntax

section \<open>Bytes and the embedded key-value store\<close>

text \<open>
  A Go \<open>[]byte\<close> is a list of 8-bit words. Go strings are byte strings; \<open>string\<close>
  is a list of characters compared by their byte values, so the order on keys is the
  bytewise order that LevelDB's default comparer and \<open>strings.Compare\<close> use.
\<close>

type_synonym byte = "8 word"

type_synonym bytes = "byte list"

text \<open>
  \<open>caching/scan.go\<close> keeps every record in one LevelDB database. The model keeps what
  the code observes of it: the key/value pairs in ascending key order, and whether the
  handle was closed (goleveldb then answers every call with \<open>ErrClosed\<close>). A missing
  key is reported by \<open>Get\<close> as \<open>ErrNotFound\<close>.
\<close>

datatype db_error = ErrNotFound | ErrClosed

record leveldb =
  pairs :: "(string \<times> bytes) list"
  closed :: bool

definition db_Get :: "leveldb \<Rightarrow> string \<Rightarrow> db_error + bytes" where
  "db_Get db k =
     (if closed db then Inl ErrClosed
      else case map_of (pairs db) k of None \<Rightarrow> Inl ErrNotFound | Some v \<Rightarrow> Inr v)"

definition db_Has :: "leveldb \<Rightarrow> string \<Rightarrow> db_error + bool" where
  "db_Has db k =
     (if closed db then Inl ErrClosed else Inr (map_of (pairs db) k \<noteq> None))"

fun store_pair :: "string \<Rightarrow> bytes \<Rightarrow> (string \<times> bytes) list \<Rightarrow> (string \<times> bytes) list" where
  "store_pair k v [] = [(k, v)]"
| "store_pair k v (p # ps) =
     (if fst p = k then (k, v) # ps
      else if k < fst p then (k, v) # p # ps
      else p # store_pair k v ps)"

definition db_Put :: "leveldb \<Rightarrow> string \<Rightarrow> bytes \<Rightarrow> db_error + leveldb" where
  "db_Put db k v =
     (if closed db then Inl ErrClosed else Inr (db\<lparr>pairs := store_pair k v (pairs db)\<rparr>))"

section \<open>The scan cache (caching/scan.go)\<close>

text \<open>
  \<open>fmt.Sprintf("%s:%s", prefix, key)\<close> is the database key of a record. A Go slice
  result is \<open>None\<close> for \<open>nil\<close> and \<open>Some data\<close> otherwise; a Go error result
  is the \<open>Inl\<close> side of the sum.
\<close>

datatype cache_error = DbError db_error | InvalidChecksumLength nat

definition cache_key :: "string \<Rightarrow> string \<Rightarrow> string" where
  "cache_key pfx key = pfx @ '':'' @ key"

definition put :: "leveldb \<Rightarrow> string \<Rightarrow> string \<Rightarrow> bytes \<Rightarrow> db_error + leveldb" where
  "put c pfx key data = db_Put c (cache_key pfx key) data"

definition get :: "leveldb \<Rightarrow> string \<Rightarrow> string \<Rightarrow> cache_error + bytes option" where
  "get c pfx key =
     (case db_Get c (cache_key pfx key) of
        Inl err \<Rightarrow> (if err = ErrNotFound then Inr None else Inl (DbError err))
      | Inr data \<Rightarrow> Inr (Some data))"

definition has :: "leveldb \<Rightarrow> string \<Rightarrow> string \<Rightarrow> db_error + bool" where
  "has c pfx key = db_Has c (cache_key pfx key)"

definition GetFile :: "leveldb \<Rightarrow> string \<Rightarrow> cache_error + bytes option" where
  "GetFile c file = get c ''__file__'' file"

definition GetDirectory :: "leveldb \<Rightarrow> string \<Rightarrow> cache_error + bytes option" where
  "GetDirectory c directory = get c ''__directory__'' directory"

definition PutFile :: "leveldb \<Rightarrow> string \<Rightarrow> bytes \<Rightarrow> db_error + leveldb" where
  "PutFile c file data = put c ''__file__'' file data"

definition PutDirectory :: "leveldb \<Rightarrow> string \<Rightarrow> bytes \<Rightarrow> db_error + leveldb" where
  "PutDirectory c directory data = put c ''__directory__'' directory data"

text \<open>\<open>strings.TrimSuffix(pathname, "/")\<close>, then the empty path stands for the root.\<close>

definition TrimSuffix_slash :: "string \<Rightarrow> string" where
  "TrimSuffix_slash p = (if p \<noteq> [] \<and> last p = CHR ''/'' then butlast p else p)"

definition summary_pathname :: "string \<Rightarrow> string" where
  "summary_pathname pathname =
     (let p = TrimSuffix_slash pathname in if p = [] then ''/'' else p)"

definition GetSummary :: "leveldb \<Rightarrow> string \<Rightarrow> cache_error + bytes option" where
  "GetSummary c pathname = get c ''__summary__'' (summary_pathname pathname)"

definition PutSummary :: "leveldb \<Rightarrow> string \<Rightarrow> bytes \<Rightarrow> db_error + leveldb" where
  "PutSummary c pathname data = put c ''__summary__'' (summary_pathname pathname) data"

text \<open>\<open>len(data)\<close> of a nil slice is 0, so a miss fails the 32-byte length check.\<close>

definition slice_len :: "bytes option \<Rightarrow> nat" where
  "slice_len d = (case d of None \<Rightarrow> 0 | Some xs \<Rightarrow> length xs)"

definition GetChecksum :: "leveldb \<Rightarrow> string \<Rightarrow> cache_error + bytes" where
  "GetChecksum c pathname =
     (case get c ''__checksum__'' (summary_pathname pathname) of
        Inl err \<Rightarrow> Inl err
      | Inr data \<Rightarrow>
          (if slice_len data \<noteq> 32 then Inl (InvalidChecksumLength (slice_len data))
           else Inr (case data of None \<Rightarrow> [] | Some xs \<Rightarrow> xs)))"

text \<open>
  Delta entries live under \<open>__delta__:TYPE:CSUM\<close>, the type in decimal and the checksum in hex
  (\<open>fmt.Sprintf("%d:%x", blobType, blobCsum)\<close>).
\<close>

function decimal :: "nat \<Rightarrow> string" where
  "decimal n =
     (if n < 10 then [''0123456789'' ! n]
      else decimal (n div 10) @ [''0123456789'' ! (n mod 10)])"
  by pat_completeness auto
termination
  by (relation "measure id") auto

definition hex_byte :: "byte \<Rightarrow> string" where
  "hex_byte b = [''0123456789abcdef'' ! (unat b div 16), ''0123456789abcdef'' ! (unat b mod 16)]"

definition hex :: "bytes \<Rightarrow> string" where
  "hex bs = concat (map hex_byte bs)"

definition delta_key :: "byte \<Rightarrow> bytes \<Rightarrow> string" where
  "delta_key blobType blobCsum = decimal (unat blobType) @ '':'' @ hex blobCsum"

definition PutDelta :: "leveldb \<Rightarrow> byte \<Rightarrow> bytes \<Rightarrow> bytes \<Rightarrow> db_error + leveldb" where
  "PutDelta c blobType blobCsum data = put c ''__delta__'' (delta_key blobType blobCsum) data"

definition GetDelta :: "leveldb \<Rightarrow> byte \<Rightarrow> bytes \<Rightarrow> cache_error + bytes option" where
  "GetDelta c blobType blobCsum = get c ''__delta__'' (delta_key blobType blobCsum)"

definition HasDelta :: "leveldb \<Rightarrow> byte \<Rightarrow> bytes \<Rightarrow> db_error + bool" where
  "HasDelta c blobType blobCsum = has c ''__delta__'' (delta_key blobType blobCsum)"



section \<open>Repository state (package state)\<close>

text \<open>
  \<open>objects.Checksum\<close> is \<open>[32]byte\<close> and \<open>uuid.UUID\<close> is \<open>[16]byte\<close>: byte lists
  whose length the Go type fixes; \<open>valid_entry\<close> and \<open>valid_metadata\<close> state those
  lengths. The declaration of \<open>resources.Type\<close> is not part of the sources at hand;
  \<open>_toBytes\<close> stores it with \<open>byte(de.Type)\<close> and the specification gives the kind
  as \<open>u8\<close>, so it is a byte. \<open>Metadata.Timestamp\<close> is a \<open>time.Time\<close>; the stream keeps
  its \<open>UnixNano()\<close> reading, a signed 64-bit count of nanoseconds, and the model keeps
  the timestamp as that reading.
\<close>

definition VERSION :: "32 word" where "VERSION = 100"

definition ET_METADATA :: byte where "ET_METADATA = 1"

definition ET_LOCATIONS :: byte where "ET_LOCATIONS = 2"

definition ET_TIMESTAMP :: byte where "ET_TIMESTAMP = 3"

record Metadata =
  Version :: "32 word"
  Timestamp :: "64 word"
  Aggregate :: bool
  Serial :: bytes

record Location =
  Packfile :: bytes
  Offset :: "32 word"
  Length :: "32 word"

record DeltaEntry =
  Type :: byte
  Blob :: bytes
  Location :: Location

definition LocationSerializedSize :: nat where
  "LocationSerializedSize = 32 + 4 + 4"

definition DeltaEntrySerializedSize :: nat where
  "DeltaEntrySerializedSize = 1 + 32 + LocationSerializedSize"

record LocalState =
  Metadata :: Metadata
  cache :: leveldb

definition valid_entry :: "DeltaEntry \<Rightarrow> bool" where
  "valid_entry de = (length (Blob de) = 32 \<and> length (Packfile (Location de)) = 32)"

definition valid_metadata :: "Metadata \<Rightarrow> bool" where
  "valid_metadata mt = (length (Serial mt) = 16)"

text \<open>\<open>binary.LittleEndian\<close>: least significant byte first.\<close>

definition PutUint32 :: "32 word \<Rightarrow> bytes" where
  "PutUint32 v = [ucast v, ucast (drop_bit 8 v), ucast (drop_bit 16 v), ucast (drop_bit 24 v)]"


text \<open>
  \<open>Uint32\<close> and \<open>Uint64\<close> index the slice and panic when it is too short; callers
  in the model check the length first and report the panic as an error value.
\<close>

definition Uint32 :: "bytes \<Rightarrow> 32 word" where
  "Uint32 b =
     ucast (b ! 0) OR push_bit 8 (ucast (b ! 1)) OR push_bit 16 (ucast (b ! 2))
       OR push_bit 24 (ucast (b ! 3))"

definition Uint64 :: "bytes \<Rightarrow> 64 word" where
  "Uint64 b =
     ucast (b ! 0) OR push_bit 8 (ucast (b ! 1)) OR push_bit 16 (ucast (b ! 2))
       OR push_bit 24 (ucast (b ! 3)) OR push_bit 32 (ucast (b ! 4))
       OR push_bit 40 (ucast (b ! 5)) OR push_bit 48 (ucast (b ! 6))
       OR push_bit 56 (ucast (b ! 7))"

datatype state_error =
    EOF
  | ShortRead
  | PanicIndexOutOfRange
  | FailedReadEntryType
  | FailedReadDeltaEntry
  | FailedDeserializeDeltaEntry state_error
  | FailedReadVersion
  | FailedReadTimestamp
  | FailedReadAggregate
  | FailedReadSerial
  | FailedGetStates
  | FailedUnmarshal

text \<open>
  \<open>_toBytes\<close> fills a 73-byte buffer: the type byte, the two checksums, then offset
  and length. With 32-byte checksums the copies fill the buffer exactly.
\<close>

definition ToBytes :: "DeltaEntry \<Rightarrow> bytes" where
  "ToBytes de =
     [Type de] @ Blob de @ Packfile (Location de)
       @ PutUint32 (Offset (Location de)) @ PutUint32 (Length (Location de))"

text \<open>
  \<open>DeltaEntryFromBytes\<close> reads from a \<open>bytes.Buffer\<close>: \<open>ReadByte\<close> and \<open>Read\<close>
  return \<open>io.EOF\<close> on an empty buffer, a \<open>Read\<close> of fewer than 32 bytes is the
  "Short read" error, and \<open>Uint32(bbuf.Next(4))\<close> panics when fewer than 4 bytes are left.
\<close>

definition DeltaEntryFromBytes :: "bytes \<Rightarrow> state_error + DeltaEntry" where
  "DeltaEntryFromBytes buf =
     (case buf of
        [] \<Rightarrow> Inl EOF
      | typ # b1 \<Rightarrow>
          (if b1 = [] then Inl EOF
           else if length b1 < 32 then Inl ShortRead
           else let b2 = drop 32 b1 in
             if b2 = [] then Inl EOF
             else if length b2 < 32 then Inl ShortRead
             else let b3 = drop 32 b2 in
               if length b3 < 4 then Inl PanicIndexOutOfRange
               else let b4 = drop 4 b3 in
                 if length b4 < 4 then Inl PanicIndexOutOfRange
                 else Inr \<lparr>Type = typ, Blob = take 32 b1,
                           Location = \<lparr>Packfile = take 32 b2, Offset = Uint32 (take 4 b3),
                                        Length = Uint32 (take 4 b4)\<rparr>\<rparr>))"


text \<open>
  \<open>deserializeFromStream\<close> reads from a stream that holds the given bytes. The loop
  reads one tag byte, leaves at the METADATA tag, and otherwise reads a full 73-byte
  entry, decodes it for its key and stores the raw bytes; the error of \<open>PutDelta\<close> is
  dropped (\<open>_ = ls.cache.PutDelta(...)\<close>).
\<close>

definition PutDelta_ignoring_error :: "leveldb \<Rightarrow> byte \<Rightarrow> bytes \<Rightarrow> bytes \<Rightarrow> leveldb" where
  "PutDelta_ignoring_error c t b data = (case PutDelta c t b data of Inl _ \<Rightarrow> c | Inr c' \<Rightarrow> c')"

fun deserialize_locations :: "leveldb \<Rightarrow> bytes \<Rightarrow> state_error + (leveldb \<times> bytes)" where
  "deserialize_locations c [] = Inl FailedReadEntryType"
| "deserialize_locations c (et # r) =
     (if et = ET_METADATA then Inr (c, r)
      else if length r < DeltaEntrySerializedSize then Inl FailedReadDeltaEntry
      else
        (case DeltaEntryFromBytes (take DeltaEntrySerializedSize r) of
           Inl err \<Rightarrow> Inl (FailedDeserializeDeltaEntry err)
         | Inr delta \<Rightarrow>
             deserialize_locations
               (PutDelta_ignoring_error c (Type delta) (Blob delta) (take DeltaEntrySerializedSize r))
               (drop DeltaEntrySerializedSize r)))"

definition deserialize_metadata :: "bytes \<Rightarrow> state_error + Metadata" where
  "deserialize_metadata r =
     (if length r < 4 then Inl FailedReadVersion
      else let r1 = drop 4 r in
        if length r1 < 8 then Inl FailedReadTimestamp
        else let r2 = drop 8 r1 in
          if length r2 < 1 then Inl FailedReadAggregate
          else let r3 = drop 1 r2 in
            if length r3 < 16 then Inl FailedReadSerial
            else Inr \<lparr>Version = Uint32 (take 4 r), Timestamp = Uint64 (take 8 r1),
                      Aggregate = (hd r2 = 1), Serial = take 16 r3\<rparr>)"

definition deserializeFromStream :: "LocalState \<Rightarrow> bytes \<Rightarrow> state_error + LocalState" where
  "deserializeFromStream ls stream =
     (case deserialize_locations (cache ls) stream of
        Inl err \<Rightarrow> Inl err
      | Inr (c, r) \<Rightarrow>
          (case deserialize_metadata r of
             Inl err \<Rightarrow> Inl err
           | Inr mt \<Rightarrow> Inr \<lparr>Metadata = mt, cache = c\<rparr>))"

definition FromStream :: "bytes \<Rightarrow> leveldb \<Rightarrow> state_error + LocalState" where
  "FromStream rd c =
     deserializeFromStream
       \<lparr>Metadata = \<lparr>Version = 0, Timestamp = 0, Aggregate = False, Serial = replicate 16 0\<rparr>,
        cache = c\<rparr> rd"

text \<open>
  \<open>LocalState.PutDelta\<close> stores the serialized entry under its type and blob checksum.
\<close>

definition LocalState_PutDelta :: "LocalState \<Rightarrow> DeltaEntry \<Rightarrow> db_error + LocalState" where
  "LocalState_PutDelta ls de =
     (case PutDelta (cache ls) (Type de) (Blob de) (ToBytes de) of
        Inl err \<Rightarrow> Inl err
      | Inr c \<Rightarrow> Inr (ls\<lparr>cache := c\<rparr>))"

text \<open>
  \<open>UpdateSerialOr\<close> ranges over the persisted states of the cache, a Go map from state
  identifier to msgpack-encoded metadata: the model takes the result of \<open>GetStates\<close>,
  with the pairs in the order the iteration meets them (any order), and the msgpack
  decoder \<open>MetadataFromBytes\<close> as a function. \<open>Before\<close> compares the nanosecond
  readings as signed numbers.
\<close>

definition Before :: "64 word \<Rightarrow> 64 word \<Rightarrow> bool" where
  "Before t u = (sint t < sint u)"

fun latest_state ::
  "(bytes \<Rightarrow> state_error + Metadata) \<Rightarrow> (bytes \<times> bytes) list
     \<Rightarrow> (bytes \<times> Metadata) option \<Rightarrow> state_error + (bytes \<times> Metadata) option" where
  "latest_state MetadataFromBytes [] latest = Inr latest"
| "latest_state MetadataFromBytes ((stateID, buf) # states) latest =
     (case MetadataFromBytes buf of
        Inl err \<Rightarrow> Inl err
      | Inr mt \<Rightarrow>
          latest_state MetadataFromBytes states
            (case latest of
               None \<Rightarrow> Some (stateID, mt)
             | Some (latestID, latestMT) \<Rightarrow>
                 if Before (Timestamp latestMT) (Timestamp mt) then Some (stateID, mt)
                 else latest))"

definition UpdateSerialOr ::
  "(bytes \<Rightarrow> state_error + Metadata) \<Rightarrow> state_error + (bytes \<times> bytes) list
     \<Rightarrow> LocalState \<Rightarrow> bytes \<Rightarrow> state_error + LocalState" where
  "UpdateSerialOr MetadataFromBytes GetStates ls serial =
     (case GetStates of
        Inl err \<Rightarrow> Inl err
      | Inr states \<Rightarrow>
          (case latest_state MetadataFromBytes states None of
             Inl err \<Rightarrow> Inl err
           | Inr None \<Rightarrow> Inr (ls\<lparr>Metadata := (Metadata ls)\<lparr>Serial := serial\<rparr>\<rparr>)
           | Inr (Some (latestID, latestMT)) \<Rightarrow>
               Inr (ls\<lparr>Metadata := (Metadata ls)\<lparr>Serial := Serial latestMT\<rparr>\<rparr>)))"

section \<open>Snapshots: the data of a backup (package snapshot)\<close>

text \<open>
  Errors of the snapshot package are Go \<open>error\<close> values; the model keeps their message.
  A result \<open>(value, error)\<close> is a sum with the message on the left.

  Chunks and objects (\<open>objects/objects.go\<close>) keep their checksum, length and content
  type; the version, the flags and the floating-point entropy are not read by anything
  modelled here and are left out.
\<close>

type_synonym MAC = bytes

record Chunk =
  Chunk_ContentMAC :: MAC
  Chunk_Length :: "32 word"

record Object =
  Object_ContentMAC :: MAC
  Chunks :: "Chunk list"
  ContentType :: string

text \<open>
  The kinds of blobs. The numeric values of \<open>resources.RT_*\<close> are not in the sources
  at hand; the specification lists the kinds as a closed set.
\<close>

datatype resource =
    RT_SNAPSHOT | RT_CHUNK | RT_OBJECT | RT_VFS_ENTRY | RT_VFS_NODE | RT_VFS_BTREE
  | RT_XATTR_ENTRY | RT_XATTR_NODE | RT_XATTR_BTREE | RT_ERROR_ENTRY | RT_ERROR_NODE
  | RT_ERROR_BTREE | RT_BTREE_ROOT | RT_BTREE_NODE | RT_SIGNATURE | RT_STATE

text \<open>
  Modelled from the spec: \<open>objects.FileInfo\<close> and its \<open>Equal\<close> are not in the sources at
  hand. The specification has the file info carry mode, size, mtime, uid, gid, device
  and inode, and \<open>Equal\<close> hold when mode, size, mtime, device and inode are all equal.
  The mode is a Go \<open>fs.FileMode\<close>: \<open>IsDir\<close> tests the \<open>ModeDir\<close> bit and \<open>IsRegular\<close>
  that no bit of \<open>ModeType\<close> is set.
\<close>

record FileInfo =
  Lname :: string
  Lsize :: "64 word"
  Lmode :: "32 word"
  LmodTime :: "64 word"
  Ldev :: "64 word"
  Lino :: "64 word"
  Luid :: "64 word"
  Lgid :: "64 word"

definition ModeDir :: "32 word" where "ModeDir = 0x80000000"

definition ModeType :: "32 word" where "ModeType = 0x8F280000"

definition IsDir :: "32 word \<Rightarrow> bool" where
  "IsDir m = (m AND ModeDir \<noteq> 0)"

definition IsRegular :: "32 word \<Rightarrow> bool" where
  "IsRegular m = (m AND ModeType = 0)"

definition Equal :: "FileInfo \<Rightarrow> FileInfo \<Rightarrow> bool" where
  "Equal fileinfo fi =
     (Lmode fileinfo = Lmode fi \<and> Lsize fileinfo = Lsize fi \<and> LmodTime fileinfo = LmodTime fi
      \<and> Ldev fileinfo = Ldev fi \<and> Lino fileinfo = Lino fi)"

text \<open>Scan results, as \<open>importerJob\<close> and \<open>Backup\<close> read them.\<close>

record ScanRecord =
  Pathname :: string
  FileInfo :: FileInfo
  IsXattr :: bool
  XattrName :: string

record ScanError =
  ScanError_Pathname :: string
  Err :: string

record ScanResult =
  Result_Record :: "ScanRecord option"
  Result_Error :: "ScanError option"

text \<open>
  Modelled from the spec: \<open>vfs.Summary\<close> and its update methods are not in the sources
  at hand. The specification has a summary hold the counters of a directory itself and
  of everything below it, and has every recorded error increment \<open>below.errors\<close> of
  every ancestor directory: so \<open>UpdateBelow\<close>, which merges the summary of a child
  directory, adds the child's \<open>below.errors\<close>. The model keeps the two counters that the
  roll-up loop of \<open>Backup\<close> increments itself; \<open>UpdateWithFileSummary\<close> and
  \<open>UpdateAverages\<close> work on the other counters. The summary of a file
  (\<open>vfs.FileSummary\<close>) is kept with its size and its numbers of objects and chunks.
\<close>

record Summary =
  Directory_Children :: nat
  Below_Errors :: nat

definition empty_Summary :: Summary where
  "empty_Summary = \<lparr>Directory_Children = 0, Below_Errors = 0\<rparr>"

definition UpdateBelow :: "Summary \<Rightarrow> Summary \<Rightarrow> Summary" where
  "UpdateBelow s below = s\<lparr>Below_Errors := Below_Errors s + Below_Errors below\<rparr>"

record FileSummary =
  FileSummary_Size :: "64 word"
  FileSummary_Objects :: "64 word"
  FileSummary_Chunks :: "64 word"

text \<open>
  An entry of the virtual file system (\<open>vfs.Entry\<close>, not in the sources at hand): the
  fields that \<open>Backup\<close> reads. \<open>NewEntry\<close> keeps the record's file info, and has no
  object yet (the zero checksum) and an empty summary.
\<close>

record Entry =
  ParentPath :: string
  Entry_FileInfo :: FileInfo
  Entry_Object :: MAC
  Entry_Summary :: Summary

definition zero_MAC :: MAC where
  "zero_MAC = replicate 32 0"

definition NewEntry :: "string \<Rightarrow> ScanRecord \<Rightarrow> Entry" where
  "NewEntry parent record =
     \<lparr>ParentPath = parent, Entry_FileInfo = FileInfo record, Entry_Object = zero_MAC,
      Entry_Summary = empty_Summary\<rparr>"

record ErrorItem =
  Name :: string
  Error :: string

definition NewErrorItem :: "string \<Rightarrow> string \<Rightarrow> ErrorItem" where
  "NewErrorItem path error = \<lparr>Name = path, Error = error\<rparr>"

text \<open>
  An importer: its root, and the readers it opens. A reader delivers its content and
  then ends, with \<open>io.EOF\<close> or with a read error.
\<close>

record reader =
  content :: bytes
  read_error :: "string option"

record importer =
  Root :: string
  NewReader :: "string \<Rightarrow> string + reader"
  NewExtendedAttributeReader :: "string \<Rightarrow> string \<Rightarrow> string + reader"

definition ReadAll :: "reader \<Rightarrow> string + bytes" where
  "ReadAll rd = (case read_error rd of None \<Rightarrow> Inr (content rd) | Some err \<Rightarrow> Inl err)"

text \<open>
  What the snapshot code calls outside the sources at hand, as parameters: the keyed
  hash (\<open>ComputeMAC\<close>; \<open>GetMACHasher\<close> is the same hash fed in pieces), the blob codec
  (\<open>EncodeBuffer\<close>), the msgpack encoders and decoders of objects, entries and
  summaries (a decoder of a nil slice is given \<open>None\<close>), the
  content-defined chunker (the results of its successive \<open>Next()\<close> calls: a chunk or
  nil, with no error, \<open>io.EOF\<close> or another error), the two MIME type detectors, and the
  configured minimal chunk size.
\<close>

datatype next_error = NoError | IoEOF | OtherError string

record externals =
  ComputeMAC :: "bytes \<Rightarrow> MAC"
  EncodeBuffer :: "bytes \<Rightarrow> string + bytes"
  Serialize :: "Object \<Rightarrow> string + bytes"
  NewObjectFromBytes :: "bytes \<Rightarrow> string + Object"
  EntryFromBytes :: "bytes \<Rightarrow> string + Entry"
  Entry_ToBytes :: "Entry \<Rightarrow> string + bytes"
  SummaryFromBytes :: "bytes option \<Rightarrow> string + Summary"
  Summary_ToBytes :: "Summary \<Rightarrow> string + bytes"
  FileSummaryFromBytes :: "bytes \<Rightarrow> string + FileSummary"
  Chunker :: "reader \<Rightarrow> string + (bytes option \<times> next_error) list"
  TypeByExtension :: "string \<Rightarrow> string"
  Detect :: "bytes \<Rightarrow> string"
  MinSize :: "32 word"

text \<open>
  Modelled from the spec: the B-tree package is not in the sources at hand. The
  specification gives it as a sorted index with \<open>insert\<close> (which answers \<open>Exists\<close> for
  a key that is already there and leaves the tree alone) and \<open>scan_from\<close> (an ordered
  forward iterator from the first key that is not below the given one). The error index
  is ordered by \<open>strings.Compare\<close>.
\<close>

datatype btree_error = ErrExists

fun btree_Insert :: "string \<Rightarrow> 'v \<Rightarrow> (string \<times> 'v) list \<Rightarrow> btree_error + (string \<times> 'v) list" where
  "btree_Insert k v [] = Inr [(k, v)]"
| "btree_Insert k v (p # ps) =
     (if fst p = k then Inl ErrExists
      else if k < fst p then Inr ((k, v) # p # ps)
      else (case btree_Insert k v ps of Inl err \<Rightarrow> Inl err | Inr ps' \<Rightarrow> Inr (p # ps')))"

definition ScanFrom :: "(string \<times> 'v) list \<Rightarrow> string \<Rightarrow> (string \<times> 'v) list" where
  "ScanFrom idx k = dropWhile (\<lambda>p. fst p < k) idx"

text \<open>
  The state that a backup works on: the abort flag and reason of the backup context,
  the scan cache and the error index; the aggregate state that \<open>BlobExists\<close> asks and
  the blobs handed to the packer; the VFS cache; and the paths for which the importer
  was asked for a reader. Goroutines that share it are steps on this state.
\<close>

record backup =
  aborted :: bool
  abortedReason :: "string option"
  scanCache :: leveldb
  erridx :: "(string \<times> ErrorItem) list"
  aggregate :: "(resource \<times> MAC) list"
  packer :: "(resource \<times> MAC \<times> bytes) list"
  vfsCache :: leveldb
  reads :: "string list"

text \<open>\<open>recordError\<close> returns the result of \<open>Insert\<close>; every caller drops it.\<close>

definition recordError :: "backup \<Rightarrow> string \<Rightarrow> string \<Rightarrow> backup" where
  "recordError bc path err =
     (case btree_Insert path (NewErrorItem path err) (erridx bc) of
        Inl _ \<Rightarrow> bc
      | Inr idx \<Rightarrow> bc\<lparr>erridx := idx\<rparr>)"

text \<open>
  Modelled from the spec: \<open>Snapshot.BlobExists\<close> and \<open>Snapshot.PutBlob\<close> are not in the
  sources at hand. \<open>BlobExists\<close> asks the aggregate state for a (kind, MAC) pair;
  \<open>PutBlob\<close> encodes the payload and submits (kind, MAC, encoded bytes) to the packer.
  The aggregate state learns of a blob when its packfile is written, which is not
  part of a scanner job.
\<close>

definition BlobExists :: "backup \<Rightarrow> resource \<Rightarrow> MAC \<Rightarrow> bool" where
  "BlobExists snap kind mac = ((kind, mac) \<in> set (aggregate snap))"

definition PutBlob :: "externals \<Rightarrow> backup \<Rightarrow> resource \<Rightarrow> MAC \<Rightarrow> bytes \<Rightarrow> string + backup" where
  "PutBlob ext snap kind mac data =
     (case EncodeBuffer ext data of
        Inl err \<Rightarrow> Inl err
      | Inr encoded \<Rightarrow> Inr (snap\<lparr>packer := packer snap @ [(kind, mac, encoded)]\<rparr>))"

text \<open>
  Modelled from the spec: the VFS cache is not in the sources at hand. It stores, per
  path, the serialized file entry, and per MAC the serialized object; the model keeps
  them in two namespaces of a key-value store like the scan cache's.
\<close>

definition GetFilename :: "leveldb \<Rightarrow> string \<Rightarrow> cache_error + bytes option" where
  "GetFilename c pathname = get c ''__filename__'' pathname"

definition GetObject :: "leveldb \<Rightarrow> MAC \<Rightarrow> cache_error + bytes option" where
  "GetObject c mac = get c ''__object__'' (hex mac)"

definition PutObject :: "leveldb \<Rightarrow> MAC \<Rightarrow> bytes \<Rightarrow> db_error + leveldb" where
  "PutObject c mac data = put c ''__object__'' (hex mac) data"

section \<open>Chunking a file (Snapshot.chunkify)\<close>

text \<open>
  The local variables of \<open>chunkify\<close> that \<open>processChunk\<close> updates: the object under
  construction, the bytes written to the object hasher, the first-chunk flag and the
  two byte counters. \<open>processChunk\<close> returns its error (if any) with the updated
  variables and state.
\<close>

record chunking =
  object :: Object
  hashed :: bytes
  firstChunk :: bool
  cdcOffset :: "64 word"
  totalDataSize :: "64 word"

definition processChunk ::
  "externals \<Rightarrow> chunking \<times> backup \<Rightarrow> bytes \<Rightarrow> string option \<times> chunking \<times> backup" where
  "processChunk ext s data =
     (let ck = fst s; snap = snd s;
          contentType =
            (if firstChunk ck \<and> ContentType (object ck) = [] then Detect ext data
             else ContentType (object ck));
          chunk = \<lparr>Chunk_ContentMAC = ComputeMAC ext data, Chunk_Length = of_nat (length data)\<rparr>;
          ck' = ck\<lparr>object := (object ck)\<lparr>Chunks := Chunks (object ck) @ [chunk],
                                         ContentType := contentType\<rparr>,
                   hashed := hashed ck @ data,
                   firstChunk := False,
                   cdcOffset := cdcOffset ck + of_nat (length data),
                   totalDataSize := totalDataSize ck + of_nat (length data)\<rparr>
      in if \<not> BlobExists snap RT_CHUNK (Chunk_ContentMAC chunk)
         then (case PutBlob ext snap RT_CHUNK (Chunk_ContentMAC chunk) data of
                 Inl err \<Rightarrow> (Some err, ck', snap)
               | Inr snap' \<Rightarrow> (None, ck', snap'))
         else (None, ck', snap))"

text \<open>
  The loop over the chunker: an error other than \<open>io.EOF\<close> ends \<open>chunkify\<close>, a nil chunk
  ends the loop, a chunk is processed, and \<open>io.EOF\<close> with a chunk ends the loop after
  it. A chunker whose results are used up answers nil.
\<close>

fun chunk_loop ::
  "externals \<Rightarrow> (bytes option \<times> next_error) list \<Rightarrow> chunking \<times> backup
     \<Rightarrow> string option \<times> chunking \<times> backup" where
  "chunk_loop ext [] s = (None, s)"
| "chunk_loop ext ((cdcChunk, err) # rest) s =
     (case err of
        OtherError e \<Rightarrow> (Some e, s)
      | _ \<Rightarrow>
          (case cdcChunk of
             None \<Rightarrow> (None, s)
           | Some data \<Rightarrow>
               (case processChunk ext s data of
                  (Some e, s') \<Rightarrow> (Some e, s')
                | (None, s') \<Rightarrow> if err = IoEOF then (None, s') else chunk_loop ext rest s')))"

definition new_chunking :: "externals \<Rightarrow> ScanRecord \<Rightarrow> chunking" where
  "new_chunking ext record =
     \<lparr>object = \<lparr>Object_ContentMAC = zero_MAC, Chunks = [],
                 ContentType = TypeByExtension ext (Pathname record)\<rparr>,
      hashed = [], firstChunk = True, cdcOffset = 0, totalDataSize = 0\<rparr>"

text \<open>
  The three cases of \<open>chunkify\<close>: an empty file gives one empty chunk and is not read;
  a file below the minimal chunk size is read whole and gives one chunk; any other file
  goes through the chunker.
\<close>

definition chunkify_cases ::
  "externals \<Rightarrow> ScanRecord \<Rightarrow> reader \<Rightarrow> chunking \<times> backup
     \<Rightarrow> string option \<times> chunking \<times> backup" where
  "chunkify_cases ext record rd s0 =
     (if Lsize (FileInfo record) = 0 then processChunk ext s0 []
      else if sint (Lsize (FileInfo record)) < uint (MinSize ext)
      then (case ReadAll rd of
              Inl err \<Rightarrow> (Some err, s0)
            | Inr buf \<Rightarrow> processChunk ext s0 buf)
      else (case Chunker ext rd of
              Inl err \<Rightarrow> (Some err, s0)
            | Inr results \<Rightarrow> chunk_loop ext results s0))"

definition open_reader :: "importer \<Rightarrow> ScanRecord \<Rightarrow> string + reader" where
  "open_reader imp record =
     (if IsXattr record
      then NewExtendedAttributeReader imp (Pathname record) (XattrName record)
      else NewReader imp (Pathname record))"

definition chunkify ::
  "externals \<Rightarrow> importer \<Rightarrow> backup \<Rightarrow> ScanRecord \<Rightarrow> (string + Object) \<times> backup" where
  "chunkify ext imp snap record =
     (let snap0 = snap\<lparr>reads := reads snap @ [Pathname record]\<rparr> in
      case open_reader imp record of
        Inl err \<Rightarrow> (Inl err, snap0)
      | Inr rd \<Rightarrow>
          (case chunkify_cases ext record rd (new_chunking ext record, snap0) of
             (Some err, ck, snap1) \<Rightarrow> (Inl err, snap1)
           | (None, ck, snap1) \<Rightarrow>
               (Inr ((object ck)\<lparr>Object_ContentMAC := ComputeMAC ext (hashed ck)\<rparr>), snap1)))"

section \<open>The scanner job of Backup: cached entries and objects\<close>

text \<open>
  The local variables of the scanner job that its first part sets (\<open>object\<close> is
  \<open>job_object\<close> here; a nil pointer is \<open>None\<close>, an unset checksum is the zero
  checksum).
\<close>

record job_vars =
  fileEntry :: "Entry option"
  job_object :: "Object option"
  objectMAC :: MAC
  cachedFileEntryMAC :: MAC

definition no_vars :: job_vars where
  "no_vars =
     \<lparr>fileEntry = None, job_object = None, objectMAC = zero_MAC, cachedFileEntryMAC = zero_MAC\<rparr>"

text \<open>
  "Check if the file entry and underlying objects are already in the cache": every
  failure on the way is logged as a warning and leaves the variables as they are.
\<close>

definition lookup_cached :: "externals \<Rightarrow> backup \<Rightarrow> ScanRecord \<Rightarrow> job_vars" where
  "lookup_cached ext snap record =
     (case GetFilename (vfsCache snap) (Pathname record) of
        Inl err \<Rightarrow> no_vars
      | Inr None \<Rightarrow> no_vars
      | Inr (Some buf) \<Rightarrow>
          (case EntryFromBytes ext buf of
             Inl err \<Rightarrow> no_vars
           | Inr cachedFileEntry \<Rightarrow>
               (let v1 = no_vars\<lparr>cachedFileEntryMAC := ComputeMAC ext buf\<rparr> in
                if Equal (Entry_FileInfo cachedFileEntry) (FileInfo record) then
                  (let v2 = v1\<lparr>fileEntry := Some cachedFileEntry\<rparr> in
                   if IsRegular (Lmode (Entry_FileInfo cachedFileEntry)) then
                     (case GetObject (vfsCache snap) (Entry_Object cachedFileEntry) of
                        Inl err \<Rightarrow> v2
                      | Inr None \<Rightarrow> v2
                      | Inr (Some bufObject) \<Rightarrow>
                          (let v3 = v2\<lparr>objectMAC := ComputeMAC ext bufObject\<rparr> in
                           case NewObjectFromBytes ext bufObject of
                             Inl err \<Rightarrow> v3
                           | Inr cachedObject \<Rightarrow> v3\<lparr>job_object := Some cachedObject\<rparr>))
                   else v2)
                else v1)))"

definition db_error_message :: "db_error \<Rightarrow> string" where
  "db_error_message e = (case e of ErrNotFound \<Rightarrow> ''leveldb: not found'' | ErrClosed \<Rightarrow> ''leveldb: closed'')"

text \<open>
  "Chunkify the file if it is a regular file and we don't have a cached object", then
  submit the object unless the aggregate state has it. The job returns early, with no
  variables, after it recorded an error for the path.
\<close>

definition chunkify_unless_cached ::
  "externals \<Rightarrow> importer \<Rightarrow> backup \<Rightarrow> ScanRecord \<Rightarrow> job_vars \<Rightarrow> job_vars option \<times> backup" where
  "chunkify_unless_cached ext imp snap record v =
     (if IsRegular (Lmode (FileInfo record))
         \<and> (job_object v = None \<or> \<not> BlobExists snap RT_OBJECT (objectMAC v))
      then
        (case chunkify ext imp snap record of
           (Inl err, snap1) \<Rightarrow> (None, recordError snap1 (Pathname record) err)
         | (Inr obj, snap1) \<Rightarrow>
             (case Serialize ext obj of
                Inl err \<Rightarrow> (None, recordError snap1 (Pathname record) err)
              | Inr serializedObject \<Rightarrow>
                  (case PutObject (vfsCache snap1) (ComputeMAC ext serializedObject) serializedObject of
                     Inl err \<Rightarrow> (None, recordError snap1 (Pathname record) (db_error_message err))
                   | Inr c \<Rightarrow>
                       (Some (v\<lparr>job_object := Some obj,
                                objectMAC := ComputeMAC ext serializedObject\<rparr>),
                        snap1\<lparr>vfsCache := c\<rparr>))))
      else (Some v, snap))"

definition put_object ::
  "externals \<Rightarrow> backup \<Rightarrow> ScanRecord \<Rightarrow> job_vars \<Rightarrow> job_vars option \<times> backup" where
  "put_object ext snap record v =
     (case job_object v of
        None \<Rightarrow> (Some v, snap)
      | Some obj \<Rightarrow>
          if \<not> BlobExists snap RT_OBJECT (objectMAC v) then
            (case Serialize ext obj of
               Inl err \<Rightarrow> (None, recordError snap (Pathname record) err)
             | Inr data \<Rightarrow>
                 (case PutBlob ext snap RT_OBJECT (ComputeMAC ext data) data of
                    Inl err \<Rightarrow> (None, recordError snap (Pathname record) err)
                  | Inr snap' \<Rightarrow> (Some (v\<lparr>objectMAC := ComputeMAC ext data\<rparr>), snap')))
          else (Some v, snap))"

definition scanner_job_object ::
  "externals \<Rightarrow> importer \<Rightarrow> backup \<Rightarrow> ScanRecord \<Rightarrow> job_vars option \<times> backup" where
  "scanner_job_object ext imp snap record =
     (case chunkify_unless_cached ext imp snap record (lookup_cached ext snap record) of
        (None, snap1) \<Rightarrow> (None, snap1)
      | (Some v, snap1) \<Rightarrow> put_object ext snap1 record v)"

section \<open>The importer job (Snapshot.importerJob) and the end of Backup\<close>

text \<open>
  \<open>BackupOptions.Excludes\<close> are glob matchers, here predicates on path names.
  \<open>skipExcludedPathname\<close> never skips the path \<open>/\<close>.
\<close>

definition skipExcludedPathname :: "(string \<Rightarrow> bool) list \<Rightarrow> ScanResult \<Rightarrow> bool" where
  "skipExcludedPathname excludes r =
     (let pathname =
            (case Result_Record r of
               Some rec \<Rightarrow> Pathname rec
             | None \<Rightarrow> (case Result_Error r of Some e \<Rightarrow> ScanError_Pathname e | None \<Rightarrow> []))
      in if pathname = ''/'' then False else list_ex (\<lambda>exclude. exclude pathname) excludes)"

text \<open>
  \<open>recordEntry\<close> serializes an entry and stores it in the scan cache, as a directory or
  as a file; \<open>entry.Path()\<close> is the path name of the record that the entry was made
  from. \<open>Dir\<close> is \<open>path.Dir\<close> on a clean path: what stands before the last slash.
\<close>

definition recordEntry :: "externals \<Rightarrow> backup \<Rightarrow> string \<Rightarrow> Entry \<Rightarrow> string option \<times> backup" where
  "recordEntry ext bc path entry =
     (case Entry_ToBytes ext entry of
        Inl err \<Rightarrow> (Some err, bc)
      | Inr data \<Rightarrow>
          (case (if IsDir (Lmode (Entry_FileInfo entry))
                 then PutDirectory (scanCache bc) path data
                 else PutFile (scanCache bc) path data) of
             Inl err \<Rightarrow> (Some (db_error_message err), bc)
           | Inr c \<Rightarrow> (None, bc\<lparr>scanCache := c\<rparr>)))"

definition Dir :: "string \<Rightarrow> string" where
  "Dir p =
     (let d = rev (drop 1 (dropWhile (\<lambda>c. c \<noteq> CHR ''/'') (rev p)))
      in if CHR ''/'' \<notin> set p then ''.'' else if d = [] then ''/'' else d)"

text \<open>
  The body of the goroutine that \<open>importerJob\<close> starts for one scan result, on the
  backup context and the files channel. A scan error whose path is the importer's root,
  or is shorter than the root, aborts the backup; any other scan error is recorded. A
  record below the repository's own location is skipped, a file is sent on to the
  scanner, a directory is recorded in the scan cache. (The counters of the "done" event
  and the reset of the header's directory for a single-file backup are left out.)
\<close>

definition importer_record ::
  "externals \<Rightarrow> importer \<Rightarrow> string \<Rightarrow> backup \<times> ScanRecord list \<Rightarrow> ScanResult
     \<Rightarrow> backup \<times> ScanRecord list" where
  "importer_record ext imp repoLocation s r =
     (case Result_Error r of
        Some e \<Rightarrow>
          if ScanError_Pathname e = Root imp \<or> length (ScanError_Pathname e) < length (Root imp)
          then ((fst s)\<lparr>aborted := True, abortedReason := Some (Err e)\<rparr>, snd s)
          else (recordError (fst s) (ScanError_Pathname e) (Err e), snd s)
      | None \<Rightarrow>
          (case Result_Record r of
             None \<Rightarrow> s
           | Some rec \<Rightarrow>
               if prefix (repoLocation @ ''/'') (Pathname rec) then s
               else if \<not> IsDir (Lmode (FileInfo rec)) then (fst s, snd s @ [rec])
               else
                 (case recordEntry ext (fst s) (Pathname rec) (NewEntry (Dir (Pathname rec)) rec) of
                    (Some err, bc) \<Rightarrow> (recordError bc (Pathname rec) err, snd s)
                  | (None, bc) \<Rightarrow> (bc, snd s))))"

text \<open>
  \<open>importerJob\<close> ranges over the scanner's results. An iteration of its loop leaves the
  loop when the abort flag is set, passes over an excluded result, and otherwise takes
  a slot of \<open>maxConcurrency\<close> (waiting for one if none is free) and starts a goroutine
  for the result; the goroutines run concurrently with the loop and with each other.
  After the loop the job waits for the goroutines it started. The model keeps the
  results that the scanner still has to deliver, the result that has passed the two
  tests of the loop and waits for a slot, the results whose goroutine is started and
  has not run yet, and the backup context with the files channel. A run of the job is
  a list of events: \<open>Loop\<close> is the next step of the loop (the two tests on the next
  result, or the start of the goroutine for the waiting result when a slot is free),
  \<open>Handler i\<close> runs the \<open>i\<close>-th started goroutine to its end. A goroutine writes the
  abort flag and then the reason, or puts one entry into the scan cache, or inserts one
  item into the error index under its mutex, and \<open>Backup\<close> reads the reason only after
  the job has finished: running a goroutine in one step, in any order with the others,
  loses no final state. (The scanner jobs of \<open>Backup\<close> take slots of the same channel
  and give them back; they only delay the loop.)
\<close>

datatype event = Loop | Handler nat

record importer_job =
  pending :: "ScanResult list"
  admitted :: "ScanResult option"
  running :: "ScanResult list"
  shared :: "backup \<times> ScanRecord list"

definition loop_step :: "(string \<Rightarrow> bool) list \<Rightarrow> nat \<Rightarrow> importer_job \<Rightarrow> importer_job" where
  "loop_step excludes slots j =
     (case admitted j of
        Some r \<Rightarrow>
          if length (running j) < slots then j\<lparr>admitted := None, running := running j @ [r]\<rparr>
          else j
      | None \<Rightarrow>
          (case pending j of
             [] \<Rightarrow> j
           | r # scanner \<Rightarrow>
               if aborted (fst (shared j)) then j\<lparr>pending := []\<rparr>
               else if skipExcludedPathname excludes r then j\<lparr>pending := scanner\<rparr>
               else j\<lparr>pending := scanner, admitted := Some r\<rparr>))"

definition handler_step ::
  "externals \<Rightarrow> importer \<Rightarrow> string \<Rightarrow> nat \<Rightarrow> importer_job \<Rightarrow> importer_job" where
  "handler_step ext imp repoLocation i j =
     (if i < length (running j)
      then j\<lparr>running := take i (running j) @ drop (Suc i) (running j),
             shared := importer_record ext imp repoLocation (shared j) (running j ! i)\<rparr>
      else j)"

fun importerJob ::
  "externals \<Rightarrow> importer \<Rightarrow> string \<Rightarrow> (string \<Rightarrow> bool) list \<Rightarrow> nat \<Rightarrow> event list
     \<Rightarrow> importer_job \<Rightarrow> importer_job" where
  "importerJob ext imp repoLocation excludes slots [] j = j"
| "importerJob ext imp repoLocation excludes slots (Loop # events) j =
     importerJob ext imp repoLocation excludes slots events (loop_step excludes slots j)"
| "importerJob ext imp repoLocation excludes slots (Handler i # events) j =
     importerJob ext imp repoLocation excludes slots events (handler_step ext imp repoLocation i j)"

text \<open>
  The job at its start, and the job at its end: the loop is over and every started
  goroutine has run (\<open>wg.Wait()\<close> returns and the files channel is closed).
\<close>

definition start_job :: "ScanResult list \<Rightarrow> backup \<times> ScanRecord list \<Rightarrow> importer_job" where
  "start_job scanner s = \<lparr>pending = scanner, admitted = None, running = [], shared = s\<rparr>"

definition finished :: "importer_job \<Rightarrow> bool" where
  "finished j = (pending j = [] \<and> admitted j = None \<and> running j = [])"

text \<open>
  A run of the job over the results of a scan, from a backup context and a new files
  channel; and the backup context of a job.
\<close>

definition importer_run ::
  "externals \<Rightarrow> importer \<Rightarrow> string \<Rightarrow> (string \<Rightarrow> bool) list \<Rightarrow> nat \<Rightarrow> event list
     \<Rightarrow> ScanResult list \<Rightarrow> backup \<Rightarrow> importer_job" where
  "importer_run ext imp repoLocation excludes slots events scanner bc =
     importerJob ext imp repoLocation excludes slots events (start_job scanner (bc, []))"

definition job_context :: "importer_job \<Rightarrow> backup" where
  "job_context j = fst (shared j)"

text \<open>
  \<open>Backup\<close> from the scanner loop to its end. The steps that lie outside the sources at
  hand or outside this model are given by their outcomes: the context's error if the
  scanner loop finds the context cancelled, what \<open>persistIndex\<close> returns for each of the
  four indexes, what the roll-up returns (an error of the new file index or of the
  loop, the context's error if the loop finds it cancelled, or else the root summary,
  which is nil when the scan cache has no directory \<open>/\<close>), and what \<open>Commit\<close> returns.
  \<open>Backup\<close> returns at the first failing step; then it returns the abort reason if the
  backup is aborted; otherwise it copies the root summary into the header, which is a
  nil pointer dereference without a root summary, and commits. (The returns of
  \<open>Backup\<close> before the importer is started are left out: no scan result has been
  seen then.)
\<close>

datatype outcome = Returned "string option" | Committed "string option" | Panicked

record backup_steps =
  cancelled :: "string option"
  persist_errors :: "string + MAC"
  rolled_up :: "string + Summary option"
  persist_files :: "string + MAC"
  persist_xattrs :: "string + MAC"
  persist_content_types :: "string + MAC"
  Commit :: "string option"

definition Backup_end :: "backup \<Rightarrow> backup_steps \<Rightarrow> outcome" where
  "Backup_end bc steps =
     (case cancelled steps of
        Some err \<Rightarrow> Returned (Some err)
      | None \<Rightarrow>
     (case persist_errors steps of
        Inl err \<Rightarrow> Returned (Some err)
      | Inr errcsum \<Rightarrow>
     (case rolled_up steps of
        Inl err \<Rightarrow> Returned (Some err)
      | Inr rootSummary \<Rightarrow>
     (case persist_files steps of
        Inl err \<Rightarrow> Returned (Some err)
      | Inr rootcsum \<Rightarrow>
     (case persist_xattrs steps of
        Inl err \<Rightarrow> Returned (Some err)
      | Inr xattrcsum \<Rightarrow>
     (case persist_content_types steps of
        Inl err \<Rightarrow> Returned (Some err)
      | Inr ctmac \<Rightarrow>
          if aborted bc then Returned (abortedReason bc)
          else (case rootSummary of
                  None \<Rightarrow> Panicked
                | Some summary \<Rightarrow> Committed (Commit steps))))))))"

section \<open>The directory roll-up of Backup\<close>

text \<open>
  \<open>EnumerateKeysWithPrefix\<close> walks the keys that start with the prefix, in ascending or
  descending order, and yields each key without the prefix, with its value. Its
  iterator reads the database as it was when the iterator was made.
\<close>

definition EnumerateKeysWithPrefix :: "leveldb \<Rightarrow> string \<Rightarrow> bool \<Rightarrow> (string \<times> bytes) list" where
  "EnumerateKeysWithPrefix c pfx reverse =
     (let found = map (\<lambda>p. (drop (length pfx) (fst p), snd p))
                    (filter (\<lambda>p. prefix pfx (fst p)) (if closed c then [] else pairs c))
      in if reverse then rev found else found)"

text \<open>
  Modelled from the spec: the VFS cache keeps a file summary per path; a path without
  one is an error of \<open>GetFileSummary\<close>.
\<close>

definition GetFileSummary :: "leveldb \<Rightarrow> string \<Rightarrow> string + bytes" where
  "GetFileSummary c pathname =
     (case get c ''__file_summary__'' pathname of
        Inl err \<Rightarrow> Inl ''vfs cache: read failed''
      | Inr None \<Rightarrow> Inl ''vfs cache: no file summary''
      | Inr (Some data) \<Rightarrow> Inr data)"

text \<open>
  The loop over the direct child files of a directory: a decoding error of a child
  entry ends the backup; a child without a readable file summary is passed over.
\<close>

fun file_loop ::
  "externals \<Rightarrow> leveldb \<Rightarrow> string \<Rightarrow> (string \<times> bytes) list \<Rightarrow> Summary \<Rightarrow> string + Summary" where
  "file_loop ext vc pfx [] s = Inr s"
| "file_loop ext vc pfx (child # childiter) s =
     (if CHR ''/'' \<in> set (fst child) then file_loop ext vc pfx childiter s
      else
        (case EntryFromBytes ext (snd child) of
           Inl err \<Rightarrow> Inl err
         | Inr childEntry \<Rightarrow>
             (case GetFileSummary vc (pfx @ fst child) of
                Inl err \<Rightarrow> file_loop ext vc pfx childiter s
              | Inr data \<Rightarrow>
                  (case FileSummaryFromBytes ext data of
                     Inl err \<Rightarrow> file_loop ext vc pfx childiter s
                   | Inr fileSummary \<Rightarrow>
                       file_loop ext vc pfx childiter
                         (s\<lparr>Directory_Children := Directory_Children s + 1\<rparr>)))))"

text \<open>
  The loop over the direct child directories: a child whose summary cannot be read
  from the scan cache is passed over; the others are counted and merged.
\<close>

fun subdir_loop ::
  "externals \<Rightarrow> leveldb \<Rightarrow> string \<Rightarrow> (string \<times> bytes) list \<Rightarrow> Summary \<Rightarrow> Summary" where
  "subdir_loop ext sc pfx [] s = s"
| "subdir_loop ext sc pfx (child # subDirIter) s =
     (if fst child = [] \<or> CHR ''/'' \<in> set (fst child) then subdir_loop ext sc pfx subDirIter s
      else
        (case GetSummary sc (pfx @ fst child) of
           Inl err \<Rightarrow> subdir_loop ext sc pfx subDirIter s
         | Inr data \<Rightarrow>
             (case SummaryFromBytes ext data of
                Inl err \<Rightarrow> subdir_loop ext sc pfx subDirIter s
              | Inr childSummary \<Rightarrow>
                  subdir_loop ext sc pfx subDirIter
                    (UpdateBelow (s\<lparr>Directory_Children := Directory_Children s + 1\<rparr>)
                       childSummary))))"

text \<open>
  The loop over the error index, from the directory's prefix on: it leaves at the
  first item whose name does not start with the prefix, and at the first item whose
  name has a slash after the prefix; every item before that is counted.
\<close>

fun error_loop :: "string \<Rightarrow> (string \<times> ErrorItem) list \<Rightarrow> Summary \<Rightarrow> Summary" where
  "error_loop pfx [] s = s"
| "error_loop pfx (item # erriter) s =
     (if \<not> prefix pfx (Name (snd item)) then s
      else if CHR ''/'' \<in> set (drop (length pfx) (Name (snd item))) then s
      else error_loop pfx erriter (s\<lparr>Below_Errors := Below_Errors s + 1\<rparr>))"

text \<open>
  One directory of the roll-up: its summary is computed from its child files, its child
  directories and its errors, stored in the scan cache, and the entry is recorded
  again. (The file index that the loop also fills, the classifications and the events
  are left out.) The result is the new state and the directory's summary.
\<close>

definition rollup_directory ::
  "externals \<Rightarrow> backup \<Rightarrow> string \<Rightarrow> bytes \<Rightarrow> string + backup \<times> Summary" where
  "rollup_directory ext bc dirPath data =
     (case EntryFromBytes ext data of
        Inl err \<Rightarrow> Inl err
      | Inr dirEntry \<Rightarrow>
          (let pfx = (if dirPath \<noteq> ''/'' then dirPath @ ''/'' else dirPath) in
           case file_loop ext (vfsCache bc) pfx
                  (EnumerateKeysWithPrefix (scanCache bc) (''__file__:'' @ pfx) False)
                  (Entry_Summary dirEntry) of
             Inl err \<Rightarrow> Inl err
           | Inr s1 \<Rightarrow>
               (let s2 = subdir_loop ext (scanCache bc) pfx
                           (EnumerateKeysWithPrefix (scanCache bc) (''__directory__:'' @ pfx) False)
                           s1;
                    s3 = error_loop pfx (ScanFrom (erridx bc) pfx) s2
                in case Summary_ToBytes ext s3 of
                     Inl err \<Rightarrow> Inl err
                   | Inr serializedSummary \<Rightarrow>
                       (case PutSummary (scanCache bc) dirPath serializedSummary of
                          Inl err \<Rightarrow> Inl (db_error_message err)
                        | Inr c \<Rightarrow>
                            (case recordEntry ext (bc\<lparr>scanCache := c\<rparr>) dirPath
                                    (dirEntry\<lparr>Entry_Summary := s3\<rparr>) of
                               (Some err, bc') \<Rightarrow> Inl err
                             | (None, bc') \<Rightarrow> Inr (bc', s3))))))"

text \<open>
  The roll-up: the directories of the scan cache in descending path order, deepest
  first; the summary of \<open>/\<close> is the root summary (a second one is a panic).
\<close>

fun rollup_loop ::
  "externals \<Rightarrow> (string \<times> bytes) list \<Rightarrow> backup \<times> Summary option
     \<Rightarrow> string + backup \<times> Summary option" where
  "rollup_loop ext [] s = Inr s"
| "rollup_loop ext (dir # diriter) s =
     (case rollup_directory ext (fst s) (fst dir) (snd dir) of
        Inl err \<Rightarrow> Inl err
      | Inr (bc, summary) \<Rightarrow>
          if fst dir = ''/'' then
            (if snd s \<noteq> None then Inl ''panic: double /!''
             else rollup_loop ext diriter (bc, Some summary))
          else rollup_loop ext diriter (bc, snd s))"

definition rollup :: "externals \<Rightarrow> backup \<Rightarrow> string + backup \<times> Summary option" where
  "rollup ext bc =
     rollup_loop ext (EnumerateKeysWithPrefix (scanCache bc) ''__directory__:'' True) (bc, None)"

section \<open>Writing a packfile (Snapshot.PutPackfile) and reading its tail\<close>

text \<open>
  The packfile package is not in the sources at hand: the three serializations of the
  packer's packfile (data, index, footer) are inputs, each a result that may be an
  error, and so is the outcome of the storage write. \<open>PutPackfile\<close> returns the MAC and
  the bytes that it hands to the storage. (The deltas that it then records in the
  snapshot's delta state, one per blob, leave the written bytes alone and are left
  out.)
\<close>

record serialized_packfile =
  SerializeData :: "string + bytes"
  SerializeIndex :: "string + bytes"
  SerializeFooter :: "string + bytes"

definition PutPackfile ::
  "externals \<Rightarrow> serialized_packfile \<Rightarrow> string option \<Rightarrow> string + MAC \<times> bytes" where
  "PutPackfile ext pf write_error =
     (case SerializeData pf of
        Inl err \<Rightarrow> Inl (''could not serialize pack file data '' @ err)
      | Inr serializedData \<Rightarrow>
     (case SerializeIndex pf of
        Inl err \<Rightarrow> Inl (''could not serialize pack file index '' @ err)
      | Inr serializedIndex \<Rightarrow>
     (case SerializeFooter pf of
        Inl err \<Rightarrow> Inl (''could not serialize pack file footer '' @ err)
      | Inr serializedFooter \<Rightarrow>
     (case EncodeBuffer ext serializedIndex of
        Inl err \<Rightarrow> Inl err
      | Inr encryptedIndex \<Rightarrow>
     (case EncodeBuffer ext serializedFooter of
        Inl err \<Rightarrow> Inl err
      | Inr encryptedFooter \<Rightarrow>
          (let serializedPackfile =
                 serializedData @ encryptedIndex @ encryptedFooter
                   @ PutUint32 (of_nat (length encryptedFooter))
           in case write_error of
                Some err \<Rightarrow> Inl (''Could not write pack file '' @ err)
              | None \<Rightarrow> Inr (ComputeMAC ext serializedPackfile, serializedPackfile)))))))"


section \<open>Invariants and predicates of the statements\<close>

text \<open>
  The notions in which the properties of the last part are stated: absence of a key,
  validity of a state, what a scanner job may write, the pieces that a file is cut
  into, and what holds of every run of the importer job.
\<close>

text \<open>A key is absent from an open cache when no pair of the database has it.\<close>

definition absent :: "leveldb \<Rightarrow> string \<Rightarrow> string \<Rightarrow> bool" where
  "absent c pfx key = (\<not> closed c \<and> cache_key pfx key \<notin> fst ` set (pairs c))"

definition new_cache :: leveldb where
  "new_cache = \<lparr>pairs = [], closed = False\<rparr>"

text \<open>
  What the two writers of the delta namespace, \<open>LocalState.PutDelta\<close> and
  \<open>deserializeFromStream\<close>, establish for every pair they store: the value is a
  73-byte entry and the key is the one formatted from the entry's own type and blob.
  A state is valid when its cache is open, its keys ascend (the database is ordered),
  every pair of the delta namespace is of that form, and the serial has 16 bytes.
\<close>

definition stored_under :: "string \<Rightarrow> bytes \<Rightarrow> bool" where
  "stored_under k v =
     (length v = DeltaEntrySerializedSize \<and>
      (case DeltaEntryFromBytes v of
         Inl _ \<Rightarrow> False
       | Inr d \<Rightarrow> k = cache_key ''__delta__'' (delta_key (Type d) (Blob d))))"

definition valid_state :: "LocalState \<Rightarrow> bool" where
  "valid_state ls =
     (\<not> closed (cache ls)
      \<and> sorted_wrt (<) (map fst (pairs (cache ls)))
      \<and> list_all (\<lambda>p. prefix ''__delta__:'' (fst p) \<longrightarrow> stored_under (fst p) (snd p))
          (pairs (cache ls))
      \<and> valid_metadata (Metadata ls))"

definition store_raw :: "leveldb \<Rightarrow> bytes \<Rightarrow> leveldb" where
  "store_raw c v =
     (case DeltaEntryFromBytes v of
        Inl _ \<Rightarrow> c
      | Inr d \<Rightarrow> PutDelta_ignoring_error c (Type d) (Blob d) v)"


text \<open>No decodable state of the list is more recent than \<open>m\<close>.\<close>

definition newest ::
  "(bytes \<Rightarrow> state_error + Metadata) \<Rightarrow> (bytes \<times> bytes) list \<Rightarrow> Metadata \<Rightarrow> bool" where
  "newest dec states m =
     (\<forall>p \<in> set states. \<forall>m'. dec (snd p) = Inr m' \<longrightarrow> sint (Timestamp m') \<le> sint (Timestamp m))"


text \<open>
  Between two states of a backup: the aggregate state is the same, and the blobs handed
  to the packer since are chunks and objects that the aggregate state did not have.
\<close>

definition only_new :: "backup \<Rightarrow> backup \<Rightarrow> bool" where
  "only_new snap snap' =
     (aggregate snap' = aggregate snap
      \<and> (\<exists>new. packer snap' = packer snap @ new
            \<and> (\<forall>b \<in> set new. (fst b = RT_CHUNK \<or> fst b = RT_OBJECT)
                  \<and> \<not> BlobExists snap (fst b) (fst (snd b)))))"

text \<open>
  The object of a job was either found in the aggregate state under \<open>objectMAC\<close>, or
  \<open>objectMAC\<close> is the MAC of its serialization.
\<close>

definition object_checked :: "externals \<Rightarrow> backup \<Rightarrow> job_vars \<Rightarrow> bool" where
  "object_checked ext snap v =
     (case job_object v of
        None \<Rightarrow> True
      | Some obj \<Rightarrow>
          BlobExists snap RT_OBJECT (objectMAC v)
          \<or> (case Serialize ext obj of
                Inl _ \<Rightarrow> False
              | Inr ser \<Rightarrow> objectMAC v = ComputeMAC ext ser))"







text \<open>
  A scan result that aborts the backup: a scan error on the importer's root or on a
  shorter path. The path of a scan error, and the message that becomes the abort reason.
\<close>

definition aborts :: "importer \<Rightarrow> ScanResult \<Rightarrow> bool" where
  "aborts imp r =
     (case Result_Error r of
        None \<Rightarrow> False
      | Some e \<Rightarrow>
          ScanError_Pathname e = Root imp \<or> length (ScanError_Pathname e) < length (Root imp))"

definition error_path :: "ScanResult \<Rightarrow> string" where
  "error_path r = (case Result_Error r of None \<Rightarrow> [] | Some e \<Rightarrow> ScanError_Pathname e)"

text \<open>
  What holds of an importer job at every moment of every run over the results
  \<open>results\<close>, from a context that is not aborted: the goroutines started, or about to
  be, are for results that are not excluded; an aborted context has the message of an
  aborting scan error as its reason; and as long as the context is not aborted, every
  scan error that is not excluded is still to be handled, or is recorded in the error
  index.
\<close>

definition todo :: "importer_job \<Rightarrow> ScanResult set" where
  "todo j = set (pending j) \<union> set_option (admitted j) \<union> set (running j)"

definition job_inv ::
  "importer \<Rightarrow> (string \<Rightarrow> bool) list \<Rightarrow> ScanResult list \<Rightarrow> importer_job \<Rightarrow> bool" where
  "job_inv imp excludes results j =
     ((\<forall>r \<in> todo j. r \<in> set results)
      \<and> (\<forall>r \<in> set_option (admitted j) \<union> set (running j). \<not> skipExcludedPathname excludes r)
      \<and> (aborted (fst (shared j)) \<longrightarrow>
           (\<exists>r \<in> set results. \<not> skipExcludedPathname excludes r \<and> aborts imp r
              \<and> abortedReason (fst (shared j)) = map_option Err (Result_Error r)))
      \<and> (\<not> aborted (fst (shared j)) \<longrightarrow>
           (\<forall>r \<in> set results. \<not> skipExcludedPathname excludes r \<and> Result_Error r \<noteq> None \<longrightarrow>
              r \<in> todo j
              \<or> (\<not> aborts imp r \<and> map_of (erridx (fst (shared j))) (error_path r) \<noteq> None))))"

text \<open>
  The run that handles each result before the loop goes on, for \<open>n\<close> results.
\<close>

definition in_order :: "nat \<Rightarrow> event list" where
  "in_order n = concat (replicate (2 * n) [Loop, Handler 0])"

definition all_steps_succeed :: "backup_steps \<Rightarrow> bool" where
  "all_steps_succeed steps =
     (cancelled steps = None \<and> \<not> isl (persist_errors steps) \<and> \<not> isl (rolled_up steps)
      \<and> \<not> isl (persist_files steps) \<and> \<not> isl (persist_xattrs steps)
      \<and> \<not> isl (persist_content_types steps))"

section \<open>Example inputs\<close>

text \<open>
  Stand-ins for the external functions, to run the model on concrete inputs: the MAC of
  some bytes is their first 32 bytes (padded with zeros), encoding is the identity, an
  object is serialized as a tag byte followed by its content MAC, an entry as its
  object MAC followed by as many zero bytes as the file is long (and a final 1 for a
  directory), a summary as its two counters, and the chunker cuts a stream into a
  single chunk. The importer holds the two files of the
  specification's scenario S1.
\<close>

definition example_fileinfo :: "64 word \<Rightarrow> FileInfo" where
  "example_fileinfo n =
     \<lparr>Lname = [], Lsize = n, Lmode = 420, LmodTime = 0, Ldev = 0, Lino = 0, Luid = 0, Lgid = 0\<rparr>"

definition example_dirinfo :: FileInfo where
  "example_dirinfo =
     \<lparr>Lname = [], Lsize = 0, Lmode = 0x800001ED, LmodTime = 0, Ldev = 0, Lino = 0, Luid = 0,
      Lgid = 0\<rparr>"

definition example_externals :: externals where
  "example_externals =
     \<lparr>ComputeMAC = (\<lambda>d. take 32 (d @ replicate 32 0)),
      EncodeBuffer = Inr,
      Serialize = (\<lambda>obj. Inr (1 # Object_ContentMAC obj)),
      NewObjectFromBytes =
        (\<lambda>b. case b of [] \<Rightarrow> Inl ''empty object''
              | t # m \<Rightarrow> Inr \<lparr>Object_ContentMAC = m, Chunks = [], ContentType = []\<rparr>),
      EntryFromBytes =
        (\<lambda>b. if length b < 32 then Inl ''short entry''
             else if last b = 1
             then Inr \<lparr>ParentPath = ''/'', Entry_FileInfo = example_dirinfo,
                       Entry_Object = take 32 b, Entry_Summary = empty_Summary\<rparr>
             else Inr \<lparr>ParentPath = ''/'', Entry_FileInfo = example_fileinfo (of_nat (length b - 32)),
                       Entry_Object = take 32 b, Entry_Summary = empty_Summary\<rparr>),
      Entry_ToBytes =
        (\<lambda>e. Inr (Entry_Object e @ replicate (unat (Lsize (Entry_FileInfo e))) 0
                    @ (if IsDir (Lmode (Entry_FileInfo e)) then [1] else []))),
      SummaryFromBytes =
        (\<lambda>d. case d of
               Some [c, e] \<Rightarrow> Inr \<lparr>Directory_Children = unat c, Below_Errors = unat e\<rparr>
             | _ \<Rightarrow> Inl ''malformed summary''),
      Summary_ToBytes = (\<lambda>s. Inr [of_nat (Directory_Children s), of_nat (Below_Errors s)]),
      FileSummaryFromBytes =
        (\<lambda>b. Inr \<lparr>FileSummary_Size = of_nat (length b), FileSummary_Objects = 1,
                   FileSummary_Chunks = 1\<rparr>),
      Chunker = (\<lambda>rd. Inr [(Some (content rd), IoEOF)]),
      TypeByExtension = (\<lambda>p. []),
      Detect = (\<lambda>d. ''application/octet-stream''),
      MinSize = 64\<rparr>"

definition example_importer :: importer where
  "example_importer =
     \<lparr>Root = ''/'',
      NewReader =
        (\<lambda>p. if p = ''/hello.txt'' then Inr \<lparr>content = [104, 101, 108, 108, 111], read_error = None\<rparr>
             else if p = ''/dir/empty.bin'' then Inr \<lparr>content = [], read_error = None\<rparr>
             else Inl ''no such file''),
      NewExtendedAttributeReader = (\<lambda>p n. Inl ''no such attribute'')\<rparr>"

definition hello_record :: ScanRecord where
  "hello_record =
     \<lparr>Pathname = ''/hello.txt'', FileInfo = example_fileinfo 5, IsXattr = False, XattrName = []\<rparr>"

definition empty_record :: ScanRecord where
  "empty_record =
     \<lparr>Pathname = ''/dir/empty.bin'', FileInfo = example_fileinfo 0, IsXattr = False, XattrName = []\<rparr>"

definition new_backup :: backup where
  "new_backup =
     \<lparr>aborted = False, abortedReason = None, scanCache = new_cache, erridx = [],
      aggregate = [], packer = [], vfsCache = new_cache, reads = []\<rparr>"

text \<open>The file \<open>/hello.txt\<close> with 10 bytes announced: it has shrunk since it was scanned.\<close>

definition shrunk_record :: ScanRecord where
  "shrunk_record =
     \<lparr>Pathname = ''/hello.txt'', FileInfo = example_fileinfo 10, IsXattr = False, XattrName = []\<rparr>"

text \<open>
  A backup that has seen \<open>/hello.txt\<close> before: the VFS cache holds its entry and its
  serialized object, and the aggregate state holds the object and the chunk.
\<close>

definition second_backup :: backup where
  "second_backup =
     new_backup
       \<lparr>aggregate := [(RT_OBJECT, 1 # [104, 101, 108, 108, 111] @ replicate 26 0),
                      (RT_CHUNK, [104, 101, 108, 108, 111] @ replicate 27 0)],
        vfsCache :=
          \<lparr>pairs =
             [(''__filename__:/hello.txt'', (1 # [104, 101, 108, 108, 111] @ replicate 26 0) @ replicate 5 0),
              (''__object__:0168656c6c6f'' @ replicate 52 CHR ''0'',
               1 # [104, 101, 108, 108, 111] @ replicate 27 0)],
           closed = False\<rparr>\<rparr>"

text \<open>A backup whose aggregate state has the chunk of \<open>/hello.txt\<close> but not its object.\<close>

definition chunk_only_backup :: backup where
  "chunk_only_backup =
     new_backup\<lparr>aggregate := [(RT_CHUNK, [104, 101, 108, 108, 111] @ replicate 27 0)]\<rparr>"



definition fresh_state :: LocalState where
  "fresh_state =
     \<lparr>Metadata = \<lparr>Version = 0, Timestamp = 0, Aggregate = False, Serial = replicate 16 0\<rparr>,
      cache = new_cache\<rparr>"

text \<open>A toy decoder for examples: the first byte is the timestamp, the rest the serial.\<close>

definition example_decoder :: "bytes \<Rightarrow> state_error + Metadata" where
  "example_decoder buf =
     (case buf of
        [] \<Rightarrow> Inl FailedUnmarshal
      | t # s \<Rightarrow> Inr \<lparr>Version = 100, Timestamp = ucast t, Aggregate = False, Serial = s\<rparr>)"

text \<open>An importer rooted at \<open>/home/user\<close>, and scan errors on three paths.\<close>

definition home_importer :: importer where
  "home_importer = example_importer\<lparr>Root := ''/home/user''\<rparr>"

definition scan_error :: "string \<Rightarrow> ScanResult" where
  "scan_error path =
     \<lparr>Result_Record = None,
      Result_Error = Some \<lparr>ScanError_Pathname = path, Err = ''permission denied''\<rparr>\<rparr>"

text \<open>
  Three scan errors below and on the root \<open>/home/user\<close>, and two runs of the importer
  job over them: one that starts the three goroutines before any of them runs, and
  the one that handles each result before the loop goes on. The steps of a backup
  that all succeed, and steps whose roll-up fails.
\<close>

definition three_errors :: "ScanResult list" where
  "three_errors =
     [scan_error ''/home/user/notes.txt'', scan_error ''/home/user'',
      scan_error ''/home/user/later.txt'']"

definition all_started_first :: "event list" where
  "all_started_first = [Loop, Loop, Loop, Loop, Loop, Loop, Handler 1, Handler 0, Handler 0]"

definition home_job :: "event list \<Rightarrow> ScanResult list \<Rightarrow> importer_job" where
  "home_job events scanner =
     importer_run example_externals home_importer ''/repo'' [] 3 events scanner new_backup"

definition good_steps :: backup_steps where
  "good_steps =
     \<lparr>cancelled = None, persist_errors = Inr [1], rolled_up = Inr None, persist_files = Inr [2],
      persist_xattrs = Inr [3], persist_content_types = Inr [4], Commit = None\<rparr>"

text \<open>Scan results of a directory, and two scans of a tree with errors on two paths.\<close>

definition scan_directory :: "string \<Rightarrow> ScanResult" where
  "scan_directory path =
     \<lparr>Result_Record =
        Some \<lparr>Pathname = path, FileInfo = example_dirinfo, IsXattr = False, XattrName = []\<rparr>,
      Result_Error = None\<rparr>"

definition scanned :: "ScanResult list \<Rightarrow> backup" where
  "scanned results =
     job_context (importer_run example_externals example_importer ''/repo'' [] 1
                    (in_order (length results)) results new_backup)"


section \<open>Scan-cache misses\<close>

lemma get_absent: "absent c pfx key \<Longrightarrow> get c pfx key = Inr None"
  by (simp add: absent_def get_def db_Get_def map_of_eq_None_iff [THEN iffD2])

text \<open>
  C10. Scan-cache misses. For every key that is absent from the scan cache, \<open>get\<close>
  returns nil data and a nil error, and so do \<open>GetFile\<close>, \<open>GetDirectory\<close> and
  \<open>GetSummary\<close>; \<open>GetChecksum\<close> returns an error for an absent pathname, because
  the length 0 of the nil data is not 32.
\<close>

theorem scan_cache_miss:
  "(absent c pfx key \<longrightarrow> get c pfx key = Inr None)
   \<and> (absent c ''__file__'' file \<longrightarrow> GetFile c file = Inr None)
   \<and> (absent c ''__directory__'' dir \<longrightarrow> GetDirectory c dir = Inr None)
   \<and> (absent c ''__summary__'' (summary_pathname p) \<longrightarrow> GetSummary c p = Inr None)
   \<and> (absent c ''__checksum__'' (summary_pathname q)
        \<longrightarrow> GetChecksum c q = Inl (InvalidChecksumLength 0))"
  by (simp add: get_absent GetFile_def GetDirectory_def GetSummary_def GetChecksum_def
      slice_len_def)

theorem scan_cache_miss_witness:
  "absent \<lparr>pairs = [(''__file__:/a'', [1, 2])], closed = False\<rparr> ''__file__'' ''/b''
   \<and> get \<lparr>pairs = [(''__file__:/a'', [1, 2])], closed = False\<rparr> ''__file__'' ''/b'' = Inr None
   \<and> GetFile \<lparr>pairs = [(''__file__:/a'', [1, 2])], closed = False\<rparr> ''/b'' = Inr None
   \<and> absent \<lparr>pairs = [(''__file__:/a'', [1, 2])], closed = False\<rparr> ''__directory__'' ''/b''
   \<and> GetDirectory \<lparr>pairs = [(''__file__:/a'', [1, 2])], closed = False\<rparr> ''/b'' = Inr None
   \<and> absent \<lparr>pairs = [(''__file__:/a'', [1, 2])], closed = False\<rparr> ''__summary__'' (summary_pathname ''/b/'')
   \<and> GetSummary \<lparr>pairs = [(''__file__:/a'', [1, 2])], closed = False\<rparr> ''/b/'' = Inr None
   \<and> absent \<lparr>pairs = [(''__file__:/a'', [1, 2])], closed = False\<rparr> ''__checksum__'' (summary_pathname ''/'')
   \<and> GetChecksum \<lparr>pairs = [(''__file__:/a'', [1, 2])], closed = False\<rparr> ''/'' = Inl (InvalidChecksumLength 0)
   \<and> GetFile \<lparr>pairs = [(''__file__:/a'', [1, 2])], closed = False\<rparr> ''/a'' = Inr (Some [1, 2])"
  using scan_cache_miss [of "\<lparr>pairs = [(''__file__:/a'', [1, 2])], closed = False\<rparr>"
      "''__file__''" "''/b''" "''/b''" "''/b''" "''/b/''" "''/''"]
  by (simp add: absent_def db_Get_def cache_key_def summary_pathname_def TrimSuffix_slash_def
      GetFile_def get_def)

section \<open>Little-endian integers and delta entries\<close>

lemma Uint32_PutUint32: "Uint32 (PutUint32 v) = v"
proof (rule bit_word_eqI)
  fix n :: nat
  assume "n < LENGTH(32)"
  then have n: "n < 32" by simp
  consider "n < 8" | "8 \<le> n" "n < 16" | "16 \<le> n" "n < 24" | "24 \<le> n"
    by linarith
  then show "bit (Uint32 (PutUint32 v)) n = bit v n"
    using n by cases (auto simp add: Uint32_def PutUint32_def bit_simps)
qed


lemma length_PutUint32: "length (PutUint32 v) = 4"
  by (simp add: PutUint32_def)


lemma length_ToBytes: "valid_entry de \<Longrightarrow> length (ToBytes de) = 73"
  by (simp add: valid_entry_def ToBytes_def length_PutUint32)

lemma DeltaEntryFromBytes_ToBytes:
  assumes "valid_entry de"
  shows "DeltaEntryFromBytes (ToBytes de) = Inr de"
proof -
  have b: "length (Blob de) = 32" and p: "length (Packfile (Location de)) = 32"
    using assms by (simp_all add: valid_entry_def)
  have ne: "Blob de \<noteq> []" "Packfile (Location de) \<noteq> []"
    using b p by auto
  show ?thesis
    using b p ne
    by (simp add: ToBytes_def DeltaEntryFromBytes_def Let_def length_PutUint32
        Uint32_PutUint32)
qed

section \<open>The state stream\<close>















lemma set_store_pair: "set (store_pair k v ps) \<subseteq> insert (k, v) (set ps)"
  by (induction ps) auto

lemma sorted_store_pair:
  "sorted_wrt (<) (map fst ps) \<Longrightarrow> sorted_wrt (<) (map fst (store_pair k v ps))"
proof (induction ps)
  case Nil
  then show ?case by simp
next
  case (Cons p ps)
  have "\<forall>q \<in> set (store_pair k v ps). fst q = k \<or> q \<in> set ps"
    using set_store_pair [of k v ps] by auto
  with Cons show ?case by (auto simp: less_le_not_le)
qed

lemma valid_state_PutDelta:
  assumes "valid_state ls" "valid_entry de"
  shows "\<exists>ls'. LocalState_PutDelta ls de = Inr ls' \<and> valid_state ls'"
proof -
  let ?k = "cache_key ''__delta__'' (delta_key (Type de) (Blob de))"
  have su: "stored_under ?k (ToBytes de)"
    using assms(2)
    by (simp add: stored_under_def DeltaEntryFromBytes_ToBytes length_ToBytes
        DeltaEntrySerializedSize_def LocationSerializedSize_def)
  have eq: "LocalState_PutDelta ls de = Inr (ls\<lparr>cache := (cache ls)\<lparr>pairs := store_pair ?k (ToBytes de) (pairs (cache ls))\<rparr>\<rparr>)"
    using assms(1) by (simp add: LocalState_PutDelta_def PutDelta_def put_def db_Put_def valid_state_def)
  have "valid_state (ls\<lparr>cache := (cache ls)\<lparr>pairs := store_pair ?k (ToBytes de) (pairs (cache ls))\<rparr>\<rparr>)"
    using assms(1) su set_store_pair [of ?k "ToBytes de" "pairs (cache ls)"]
    by (auto simp: valid_state_def sorted_store_pair list_all_iff)
  with eq show ?thesis by simp
qed

lemma valid_state_new:
  "valid_metadata m \<Longrightarrow> valid_state \<lparr>Metadata = m, cache = new_cache\<rparr>"
  by (simp add: valid_state_def new_cache_def)

lemma tag_read_as_locations: "t \<noteq> ET_METADATA \<Longrightarrow> deserializeFromStream ls (t # s) = deserializeFromStream ls (ET_LOCATIONS # s)"
  by (simp add: deserializeFromStream_def ET_LOCATIONS_def ET_METADATA_def)

lemma DeltaEntryFromBytes_73:
  assumes "length v = 73"
  shows "\<exists>d. DeltaEntryFromBytes v = Inr d"
proof -
  obtain t0 b1 where v: "v = t0 # b1" using assms by (cases v) auto
  then have "length b1 = 72" using assms by simp
  then show ?thesis unfolding v
    by (simp add: DeltaEntryFromBytes_def Let_def) auto
qed



lemma deserialize_locations_errors:
  "deserialize_locations c s = Inl err \<Longrightarrow> err = FailedReadEntryType \<or> err = FailedReadDeltaEntry"
proof (induction c s rule: deserialize_locations.induct)
  case (1 c)
  then show ?case by simp
next
  case (2 c et r)
  show ?case
  proof (cases "et = ET_METADATA \<or> length r < DeltaEntrySerializedSize")
    case True
    with 2 show ?thesis by (auto split: if_splits)
  next
    case False
    then have "length (take DeltaEntrySerializedSize r) = 73"
      by (simp add: DeltaEntrySerializedSize_def LocationSerializedSize_def)
    then obtain d where d: "DeltaEntryFromBytes (take DeltaEntrySerializedSize r) = Inr d"
      using DeltaEntryFromBytes_73 by blast
    with 2 False show ?thesis by simp
  qed
qed

text \<open>
  C4, as the code has it. Deserialization does not reject unknown entry-type tags: a
  tag byte other than METADATA is read exactly as the LOCATIONS tag is. If fewer than
  73 bytes follow, reading the delta entry fails; otherwise the next 73 bytes are
  decoded and stored as a delta entry and reading goes on behind them. The only
  failures are short reads: of a tag, of a delta entry or of a metadata field.
\<close>

theorem tag_other_than_metadata:
  "t \<noteq> ET_METADATA \<longrightarrow>
     deserializeFromStream ls (t # s) = deserializeFromStream ls (ET_LOCATIONS # s)
     \<and> (length s < 73 \<longrightarrow> deserializeFromStream ls (t # s) = Inl FailedReadDeltaEntry)
     \<and> (73 \<le> length s \<longrightarrow>
          deserializeFromStream ls (t # s)
          = deserializeFromStream (ls\<lparr>cache := store_raw (cache ls) (take 73 s)\<rparr>) (drop 73 s))
     \<and> (\<forall>err. deserializeFromStream ls (t # s) = Inl err \<longrightarrow>
          err \<in> {FailedReadEntryType, FailedReadDeltaEntry, FailedReadVersion,
                 FailedReadTimestamp, FailedReadAggregate, FailedReadSerial})"
proof (intro impI conjI allI)
  assume t: "t \<noteq> ET_METADATA"
  show "deserializeFromStream ls (t # s) = deserializeFromStream ls (ET_LOCATIONS # s)"
    using t by (rule tag_read_as_locations)
  show "deserializeFromStream ls (t # s) = Inl FailedReadDeltaEntry" if "length s < 73"
    using t that
    by (simp add: deserializeFromStream_def DeltaEntrySerializedSize_def
        LocationSerializedSize_def)
  show "deserializeFromStream ls (t # s)
          = deserializeFromStream (ls\<lparr>cache := store_raw (cache ls) (take 73 s)\<rparr>) (drop 73 s)"
    if "73 \<le> length s"
  proof -
    from that have "length (take 73 s) = 73" by simp
    then obtain d where "DeltaEntryFromBytes (take 73 s) = Inr d"
      using DeltaEntryFromBytes_73 by blast
    then show ?thesis
      using t that
      by (simp add: deserializeFromStream_def DeltaEntrySerializedSize_def
          LocationSerializedSize_def store_raw_def)
  qed
  show "err \<in> {FailedReadEntryType, FailedReadDeltaEntry, FailedReadVersion,
                 FailedReadTimestamp, FailedReadAggregate, FailedReadSerial}"
    if "deserializeFromStream ls (t # s) = Inl err" for err
  proof (cases "deserialize_locations (cache ls) (t # s)")
    case (Inl e)
    then have "err = e" using that by (simp add: deserializeFromStream_def)
    with Inl deserialize_locations_errors [of "cache ls" "t # s" e] show ?thesis by auto
  next
    case (Inr cr)
    obtain c r where "cr = (c, r)" by (cases cr)
    with Inr that show ?thesis
      by (auto simp: deserializeFromStream_def deserialize_metadata_def Let_def
          split: sum.splits if_splits)
  qed
qed

theorem tag_other_than_metadata_witness:
  "7 \<noteq> ET_METADATA
   \<and> deserializeFromStream fresh_state (7 # replicate 73 0 @ ET_METADATA # replicate 29 0)
       = deserializeFromStream fresh_state (ET_LOCATIONS # replicate 73 0 @ ET_METADATA # replicate 29 0)
   \<and> deserializeFromStream fresh_state (7 # replicate 72 0) = Inl FailedReadDeltaEntry
   \<and> deserializeFromStream fresh_state [7] = Inl FailedReadDeltaEntry"
proof -
  have t: "7 \<noteq> ET_METADATA" by (simp add: ET_METADATA_def)
  have l: "length (replicate 72 (0 :: byte)) < 73" "length ([] :: bytes) < 73" by simp_all
  from tag_other_than_metadata [of 7 fresh_state "replicate 73 0 @ ET_METADATA # replicate 29 0"]
    tag_other_than_metadata [of 7 fresh_state "replicate 72 0"]
    tag_other_than_metadata [of 7 fresh_state "[]"] t l
  show ?thesis by blast
qed

text \<open>
  The claim as stated fails: the tag 7 is neither LOCATIONS nor METADATA, and the stream
  is accepted, its 73 zero bytes stored as a delta entry of type 0.
\<close>

theorem unknown_tag_not_rejected:
  "FromStream (7 # replicate 73 0 @ ET_METADATA # replicate 29 0) new_cache
     = Inr \<lparr>Metadata = \<lparr>Version = 0, Timestamp = 0, Aggregate = False, Serial = replicate 16 0\<rparr>,
            cache = \<lparr>pairs = [(''__delta__:0:'' @ replicate 64 CHR ''0'', replicate 73 0)],
                     closed = False\<rparr>\<rparr>
   \<and> 7 \<noteq> ET_LOCATIONS \<and> 7 \<noteq> ET_METADATA"
  by code_simp

section \<open>Serial inheritance\<close>

lemma latest_state_total:
  assumes "\<forall>p \<in> set states. \<exists>mt. dec (snd p) = Inr mt"
  shows "\<exists>r. latest_state dec states acc = Inr r"
  using assms
proof (induction states arbitrary: acc)
  case Nil
  then show ?case by simp
next
  case (Cons p states)
  obtain i b where p: "p = (i, b)" by (cases p)
  from Cons.prems p obtain mt where "dec b = Inr mt" by auto
  with Cons p show ?case by simp
qed

lemma latest_state_result:
  assumes "latest_state dec states acc = Inr r"
  shows "(r = None \<longleftrightarrow> states = [] \<and> acc = None)
     \<and> (\<forall>i m. r = Some (i, m) \<longrightarrow>
           (acc = Some (i, m) \<or> (\<exists>b. (i, b) \<in> set states \<and> dec b = Inr m))
           \<and> newest dec states m
           \<and> (\<forall>ai am. acc = Some (ai, am) \<longrightarrow> sint (Timestamp am) \<le> sint (Timestamp m)))"
  using assms
proof (induction states arbitrary: acc)
  case Nil
  then show ?case by (auto simp: newest_def)
next
  case (Cons p states)
  obtain i b where p: "p = (i, b)" by (cases p)
  from Cons.prems p obtain mt where mt: "dec b = Inr mt"
    by (cases "dec b") auto
  let ?acc' = "(case acc of None \<Rightarrow> Some (i, mt)
             | Some (latestID, latestMT) \<Rightarrow>
                 if Before (Timestamp latestMT) (Timestamp mt) then Some (i, mt) else acc)"
  have run: "latest_state dec states ?acc' = Inr r"
    using Cons.prems p mt by simp
  note ih = Cons.IH [OF run]
  have acc': "?acc' \<noteq> None" by (auto split: option.splits)
  obtain j m where r: "r = Some (j, m)" using ih acc' by (cases r) auto
  from ih r have src: "?acc' = Some (j, m) \<or> (\<exists>b. (j, b) \<in> set states \<and> dec b = Inr m)"
    and nw: "newest dec states m"
    and ge: "\<forall>ai am. ?acc' = Some (ai, am) \<longrightarrow> sint (Timestamp am) \<le> sint (Timestamp m)"
    by blast+
  have ge_mt: "sint (Timestamp mt) \<le> sint (Timestamp m)"
    using ge by (auto simp: Before_def split: option.splits if_splits)
  have ge_acc: "\<forall>ai am. acc = Some (ai, am) \<longrightarrow> sint (Timestamp am) \<le> sint (Timestamp m)"
    using ge by (auto simp: Before_def split: option.splits if_splits)
  have from_acc: "acc = Some (j, m) \<or> (\<exists>b. (j, b) \<in> set (p # states) \<and> dec b = Inr m)"
    using src p mt by (auto split: option.splits if_splits)
  have "newest dec (p # states) m"
    using nw ge_mt p mt by (auto simp: newest_def)
  with r from_acc ge_acc show ?case by auto
qed

text \<open>
  C9. Serial inheritance. When every persisted state decodes, \<open>UpdateSerialOr\<close> returns,
  touches nothing but the serial, and sets it to the serial of a persisted state whose
  timestamp no other persisted state exceeds; with no persisted state it sets the serial
  to the UUID it was given.
\<close>

theorem UpdateSerialOr_latest:
  assumes "\<forall>p \<in> set states. \<exists>mt. MetadataFromBytes (snd p) = Inr mt"
  shows "\<exists>ls'. UpdateSerialOr MetadataFromBytes (Inr states) ls serial = Inr ls'
     \<and> cache ls' = cache ls
     \<and> (states = [] \<longrightarrow> Serial (Metadata ls') = serial)
     \<and> (states \<noteq> [] \<longrightarrow>
          (\<exists>p \<in> set states. \<exists>mt. MetadataFromBytes (snd p) = Inr mt
             \<and> Serial (Metadata ls') = Serial mt
             \<and> (\<forall>q \<in> set states. \<forall>mt'. MetadataFromBytes (snd q) = Inr mt'
                   \<longrightarrow> sint (Timestamp mt') \<le> sint (Timestamp mt))))"
proof -
  obtain r where run: "latest_state MetadataFromBytes states None = Inr r"
    using latest_state_total [OF assms] by blast
  note res = latest_state_result [OF run]
  show ?thesis
  proof (cases r)
    case None
    with res have "states = []" by simp
    with run None show ?thesis by (simp add: UpdateSerialOr_def)
  next
    case (Some im)
    obtain i m where im: "im = (i, m)" by (cases im)
    from res Some im have ne: "states \<noteq> []"
      and src: "\<exists>b. (i, b) \<in> set states \<and> MetadataFromBytes b = Inr m"
      and nw: "newest MetadataFromBytes states m"
      by auto
    from src obtain b where b: "(i, b) \<in> set states" "MetadataFromBytes b = Inr m" by blast
    have "UpdateSerialOr MetadataFromBytes (Inr states) ls serial
        = Inr (ls\<lparr>Metadata := (Metadata ls)\<lparr>Serial := Serial m\<rparr>\<rparr>)"
      using run Some im by (simp add: UpdateSerialOr_def)
    moreover have "\<exists>p \<in> set states. \<exists>mt. MetadataFromBytes (snd p) = Inr mt
             \<and> Serial m = Serial mt
             \<and> (\<forall>q \<in> set states. \<forall>mt'. MetadataFromBytes (snd q) = Inr mt'
                   \<longrightarrow> sint (Timestamp mt') \<le> sint (Timestamp mt))"
      using b nw by (intro bexI [of _ "(i, b)"]) (auto simp: newest_def)
    ultimately show ?thesis using ne by simp
  qed
qed

theorem UpdateSerialOr_latest_witness:
  "(\<exists>ls'. UpdateSerialOr example_decoder
             (Inr [([1], 3 # replicate 16 7), ([2], 9 # replicate 16 8), ([3], 4 # replicate 16 6)])
             fresh_state (replicate 16 1) = Inr ls'
          \<and> Serial (Metadata ls') = replicate 16 8)
   \<and> (\<exists>ls'. UpdateSerialOr example_decoder (Inr []) fresh_state (replicate 16 1) = Inr ls'
          \<and> Serial (Metadata ls') = replicate 16 1)"
proof -
  let ?S = "[([1], 3 # replicate 16 7), ([2], 9 # replicate 16 8), ([3], 4 # replicate 16 6)]
              :: (bytes \<times> bytes) list"
  have h: "\<forall>p \<in> set ?S. \<exists>mt. example_decoder (snd p) = Inr mt"
    by (simp add: example_decoder_def)
  from UpdateSerialOr_latest [OF h, of fresh_state "replicate 16 1"]
  obtain ls' where a: "UpdateSerialOr example_decoder (Inr ?S) fresh_state (replicate 16 1) = Inr ls'"
    by blast
  have "UpdateSerialOr example_decoder (Inr ?S) fresh_state (replicate 16 1)
      = Inr (fresh_state\<lparr>Metadata := (Metadata fresh_state)\<lparr>Serial := replicate 16 8\<rparr>\<rparr>)"
    by code_simp
  with a have "ls' = fresh_state\<lparr>Metadata := (Metadata fresh_state)\<lparr>Serial := replicate 16 8\<rparr>\<rparr>"
    by simp
  then have s1: "Serial (Metadata ls') = replicate 16 8" by simp
  have h0: "\<forall>p \<in> set ([] :: (bytes \<times> bytes) list). \<exists>mt. example_decoder (snd p) = Inr mt"
    by simp
  from UpdateSerialOr_latest [OF h0, of fresh_state "replicate 16 1"]
  have "\<exists>ls'. UpdateSerialOr example_decoder (Inr []) fresh_state (replicate 16 1) = Inr ls'
          \<and> Serial (Metadata ls') = replicate 16 1"
    by auto
  with a s1 show ?thesis by blast
qed

section \<open>The error index\<close>

lemma btree_Insert_Inr:
  "btree_Insert k v idx = Inr idx' \<Longrightarrow> map_of idx' k = Some v"
proof (induction idx arbitrary: idx')
  case Nil
  then show ?case by auto
next
  case (Cons p idx)
  show ?case
  proof (cases "fst p = k \<or> k < fst p")
    case True
    with Cons.prems show ?thesis by (auto split: if_splits)
  next
    case False
    with Cons.prems obtain r where r: "btree_Insert k v idx = Inr r" "idx' = p # r"
      by (cases "btree_Insert k v idx") auto
    from Cons.IH [OF r(1)] r(2) False show ?thesis by (cases p) auto
  qed
qed

lemma btree_Insert_Inl:
  "btree_Insert k v idx = Inl e \<Longrightarrow> map_of idx k \<noteq> None"
proof (induction idx)
  case Nil
  then show ?case by simp
next
  case (Cons p idx)
  show ?case
  proof (cases "fst p = k")
    case True
    then show ?thesis by (cases p) auto
  next
    case False
    with Cons.prems have "btree_Insert k v idx = Inl e"
      by (cases "btree_Insert k v idx") (auto split: if_splits)
    with Cons.IH False show ?thesis by (cases p) auto
  qed
qed

lemma set_btree_Insert:
  "btree_Insert k v idx = Inr idx' \<Longrightarrow> set idx' = insert (k, v) (set idx)"
proof (induction idx arbitrary: idx')
  case Nil
  then show ?case by auto
next
  case (Cons p idx)
  show ?case
  proof (cases "fst p = k \<or> k < fst p")
    case True
    with Cons.prems show ?thesis by (auto split: if_splits)
  next
    case False
    with Cons.prems obtain r where r: "btree_Insert k v idx = Inr r" "idx' = p # r"
      by (cases "btree_Insert k v idx") auto
    from Cons.IH [OF r(1)] r(2) show ?thesis by auto
  qed
qed

lemma recordError_recorded:
  "map_of (erridx (recordError bc path err)) path \<noteq> None
   \<and> (map_of (erridx bc) path = None \<longrightarrow>
        map_of (erridx (recordError bc path err)) path = Some (NewErrorItem path err))"
proof (cases "btree_Insert path (NewErrorItem path err) (erridx bc)")
  case (Inl e)
  then show ?thesis using btree_Insert_Inl [OF Inl] by (simp add: recordError_def)
next
  case (Inr idx)
  then show ?thesis using btree_Insert_Inr [OF Inr] by (simp add: recordError_def)
qed

lemma recordError_abort_fields:
  "aborted (recordError bc path err) = aborted bc
   \<and> abortedReason (recordError bc path err) = abortedReason bc"
  by (simp add: recordError_def split: sum.splits)

lemma recordError_keeps:
  assumes "map_of (erridx bc) p \<noteq> None"
  shows "map_of (erridx (recordError bc path err)) p \<noteq> None"
proof (cases "btree_Insert path (NewErrorItem path err) (erridx bc)")
  case (Inl e)
  then show ?thesis using assms by (simp add: recordError_def)
next
  case (Inr idx)
  from set_btree_Insert [OF Inr] have "fst ` set (erridx bc) \<subseteq> fst ` set idx" by auto
  moreover from assms have "p \<in> fst ` set (erridx bc)" by (simp add: map_of_eq_None_iff)
  ultimately have "p \<in> fst ` set idx" by blast
  then show ?thesis using Inr by (simp add: recordError_def map_of_eq_None_iff)
qed

section \<open>Deduplication against the aggregate state\<close>

lemma only_new_refl: "only_new snap snap"
  by (simp add: only_new_def)

lemma only_new_trans:
  assumes "only_new a b" "only_new b c"
  shows "only_new a c"
proof -
  from assms(1) obtain n1 where 1: "aggregate b = aggregate a" "packer b = packer a @ n1"
    "\<forall>x \<in> set n1. (fst x = RT_CHUNK \<or> fst x = RT_OBJECT) \<and> \<not> BlobExists a (fst x) (fst (snd x))"
    by (auto simp: only_new_def)
  from assms(2) obtain n2 where 2: "aggregate c = aggregate b" "packer c = packer b @ n2"
    "\<forall>x \<in> set n2. (fst x = RT_CHUNK \<or> fst x = RT_OBJECT) \<and> \<not> BlobExists b (fst x) (fst (snd x))"
    by (auto simp: only_new_def)
  have "packer c = packer a @ (n1 @ n2)" using 1 2 by simp
  moreover have "\<forall>x \<in> set (n1 @ n2). (fst x = RT_CHUNK \<or> fst x = RT_OBJECT) \<and> \<not> BlobExists a (fst x) (fst (snd x))"
    using 1 2 by (auto simp: BlobExists_def)
  ultimately show ?thesis using 1 2 unfolding only_new_def by metis
qed

lemma only_new_same:
  "aggregate b = aggregate a \<Longrightarrow> packer b = packer a \<Longrightarrow> only_new a b"
  by (simp add: only_new_def)

lemma only_new_recordError: "only_new snap (recordError snap path err)"
  by (auto simp: recordError_def intro: only_new_same split: sum.splits)

lemma only_new_PutBlob:
  assumes "PutBlob ext snap kind mac data = Inr snap'" "\<not> BlobExists snap kind mac"
    "kind = RT_CHUNK \<or> kind = RT_OBJECT"
  shows "only_new snap snap'"
  using assms by (auto simp: PutBlob_def only_new_def split: sum.splits)

lemma only_new_processChunk:
  "only_new (snd s) (snd (snd (processChunk ext s data)))"
  by (auto simp: processChunk_def Let_def only_new_refl split: sum.splits
      intro: only_new_PutBlob)

lemma only_new_chunk_loop:
  "only_new (snd s) (snd (snd (chunk_loop ext results s)))"
proof (induction results arbitrary: s)
  case Nil
  then show ?case by (simp add: only_new_refl)
next
  case (Cons r results)
  obtain cdcChunk err where r: "r = (cdcChunk, err)" by (cases r)
  show ?case
  proof (cases cdcChunk)
    case None
    then show ?thesis using r by (cases err) (simp_all add: only_new_refl)
  next
    case (Some data)
    obtain e ck' snap' where p: "processChunk ext s data = (e, ck', snap')"
      by (cases "processChunk ext s data")
    have step: "only_new (snd s) snap'"
      using only_new_processChunk [of s ext data] p by simp
    have rest: "only_new snap' (snd (snd (chunk_loop ext results (ck', snap'))))"
      using Cons.IH [of "(ck', snap')"] by simp
    show ?thesis
      using r Some p step only_new_trans [OF step rest]
      by (cases err; cases e) (simp_all add: only_new_refl)
  qed
qed

lemma only_new_chunkify_cases:
  "only_new (snd s0) (snd (snd (chunkify_cases ext record rd s0)))"
proof (cases "Lsize (FileInfo record) = 0")
  case True
  then show ?thesis by (simp add: chunkify_cases_def only_new_processChunk)
next
  case nz: False
  show ?thesis
  proof (cases "sint (Lsize (FileInfo record)) < uint (MinSize ext)")
    case True
    then show ?thesis
      using nz
      by (cases "ReadAll rd") (simp_all add: chunkify_cases_def only_new_processChunk only_new_refl)
  next
    case False
    then show ?thesis
      using nz
      by (cases "Chunker ext rd") (simp_all add: chunkify_cases_def only_new_chunk_loop only_new_refl)
  qed
qed

lemma only_new_chunkify:
  "only_new snap (snd (chunkify ext imp snap record))"
proof -
  let ?snap0 = "snap\<lparr>reads := reads snap @ [Pathname record]\<rparr>"
  have 0: "only_new snap ?snap0" by (rule only_new_same) simp_all
  show ?thesis
  proof (cases "open_reader imp record")
    case (Inl err)
    then show ?thesis using 0 by (simp add: chunkify_def)
  next
    case (Inr rd)
    obtain e ck snap1 where c: "chunkify_cases ext record rd (new_chunking ext record, ?snap0) = (e, ck, snap1)"
      by (cases "chunkify_cases ext record rd (new_chunking ext record, ?snap0)")
    have "only_new ?snap0 snap1"
      using only_new_chunkify_cases [of "(new_chunking ext record, ?snap0)" ext "record" rd] c by simp
    with 0 have "only_new snap snap1" by (rule only_new_trans)
    then show ?thesis using Inr c by (cases e) (simp_all add: chunkify_def)
  qed
qed

lemma only_new_chunkify_unless_cached:
  "only_new snap (snd (chunkify_unless_cached ext imp snap record v))"
proof (cases "IsRegular (Lmode (FileInfo record))
         \<and> (job_object v = None \<or> \<not> BlobExists snap RT_OBJECT (objectMAC v))")
  case False
  then show ?thesis by (auto simp: chunkify_unless_cached_def only_new_refl)
next
  case True
  obtain r snap1 where c: "chunkify ext imp snap record = (r, snap1)"
    by (cases "chunkify ext imp snap record")
  have 1: "only_new snap snap1" using only_new_chunkify [of snap ext imp "record"] c by simp
  have e: "only_new snap (recordError snap1 p m)" for p m
    using 1 only_new_recordError by (rule only_new_trans)
  show ?thesis
  proof (cases r)
    case (Inl err)
    then show ?thesis using True c e by (simp add: chunkify_unless_cached_def)
  next
    case (Inr obj)
    show ?thesis
    proof (cases "Serialize ext obj")
      case (Inl err)
      then show ?thesis using True c Inr e by (simp add: chunkify_unless_cached_def)
    next
      case ser: (Inr serializedObject)
      have "only_new snap1 (snap1\<lparr>vfsCache := c'\<rparr>)" for c'
        by (rule only_new_same) simp_all
      with 1 have "only_new snap (snap1\<lparr>vfsCache := c'\<rparr>)" for c'
        by (rule only_new_trans)
      then show ?thesis
        using True c Inr ser e
        by (cases "PutObject (vfsCache snap1) (ComputeMAC ext serializedObject) serializedObject")
          (simp_all add: chunkify_unless_cached_def)
    qed
  qed
qed

lemma Equal_IsRegular:
  "Equal a b \<Longrightarrow> IsRegular (Lmode a) = IsRegular (Lmode b)"
  by (simp add: Equal_def)

lemma lookup_cached_object_regular:
  assumes "job_object (lookup_cached ext snap record) = Some obj"
  shows "IsRegular (Lmode (FileInfo record))"
proof -
  obtain buf where buf: "GetFilename (vfsCache snap) (Pathname record) = Inr (Some buf)"
    using assms
    by (cases "GetFilename (vfsCache snap) (Pathname record)")
      (auto simp: lookup_cached_def no_vars_def split: option.splits)
  obtain cached where cached: "EntryFromBytes ext buf = Inr cached"
    using assms buf
    by (cases "EntryFromBytes ext buf") (auto simp: lookup_cached_def no_vars_def)
  have eq: "Equal (Entry_FileInfo cached) (FileInfo record)"
    using assms buf cached
    by (auto simp: lookup_cached_def no_vars_def Let_def split: if_splits)
  have "IsRegular (Lmode (Entry_FileInfo cached))"
    using assms buf cached eq
    by (auto simp: lookup_cached_def no_vars_def Let_def split: if_splits)
  with eq show ?thesis by (simp add: Equal_IsRegular)
qed

lemma only_new_put_object:
  assumes "object_checked ext snap v"
  shows "only_new snap (snd (put_object ext snap record v))"
proof (cases "job_object v")
  case None
  then show ?thesis by (simp add: put_object_def only_new_refl)
next
  case (Some obj)
  show ?thesis
  proof (cases "BlobExists snap RT_OBJECT (objectMAC v)")
    case True
    then show ?thesis using Some by (simp add: put_object_def only_new_refl)
  next
    case False
    show ?thesis
    proof (cases "Serialize ext obj")
      case (Inl err)
      then show ?thesis using Some False by (simp add: put_object_def only_new_recordError)
    next
      case (Inr data)
      have mac: "objectMAC v = ComputeMAC ext data"
        using assms Some False Inr by (simp add: object_checked_def)
      show ?thesis
      proof (cases "PutBlob ext snap RT_OBJECT (ComputeMAC ext data) data")
        case (Inl err)
        then show ?thesis using Some False Inr by (simp add: put_object_def only_new_recordError)
      next
        case put: (Inr snap')
        have "only_new snap snap'"
          using put False mac by (intro only_new_PutBlob [OF put]) simp_all
        then show ?thesis using Some False Inr put by (simp add: put_object_def)
      qed
    qed
  qed
qed

lemma aggregate_chunkify:
  "aggregate (snd (chunkify ext imp snap record)) = aggregate snap"
  using only_new_chunkify [of snap ext imp "record"] by (simp add: only_new_def)

lemma aggregate_recordError: "aggregate (recordError snap p m) = aggregate snap"
  using only_new_recordError [of snap p m] by (simp add: only_new_def)

lemma object_checked_chunkify_unless_cached:
  assumes "chunkify_unless_cached ext imp snap record (lookup_cached ext snap record) = (Some v, snap')"
  shows "object_checked ext snap' v"
proof (cases "IsRegular (Lmode (FileInfo record))
         \<and> (job_object (lookup_cached ext snap record) = None
              \<or> \<not> BlobExists snap RT_OBJECT (objectMAC (lookup_cached ext snap record)))")
  case True
  obtain r snap1 where c: "chunkify ext imp snap record = (r, snap1)"
    by (cases "chunkify ext imp snap record")
  from assms True c obtain obj where r: "r = Inr obj"
    by (cases r) (auto simp: chunkify_unless_cached_def)
  from assms True c r obtain ser where ser: "Serialize ext obj = Inr ser"
    by (cases "Serialize ext obj") (auto simp: chunkify_unless_cached_def)
  from assms True c r ser have "job_object v = Some obj" "objectMAC v = ComputeMAC ext ser"
    by (auto simp: chunkify_unless_cached_def split: sum.splits)
  with ser show ?thesis by (simp add: object_checked_def)
next
  case False
  with assms have v: "v = lookup_cached ext snap record" and s: "snap' = snap"
    by (auto simp: chunkify_unless_cached_def split: if_splits)
  show ?thesis
  proof (cases "job_object v")
    case None
    then show ?thesis by (simp add: object_checked_def)
  next
    case (Some obj)
    then have "IsRegular (Lmode (FileInfo record))"
      using v lookup_cached_object_regular by blast
    with False Some v have "BlobExists snap RT_OBJECT (objectMAC v)" by auto
    with Some s show ?thesis by (simp add: object_checked_def)
  qed
qed

lemma only_new_scanner_job_object:
  "only_new snap (snd (scanner_job_object ext imp snap record))"
proof -
  obtain r snap1 where c: "chunkify_unless_cached ext imp snap record (lookup_cached ext snap record) = (r, snap1)"
    by (cases "chunkify_unless_cached ext imp snap record (lookup_cached ext snap record)")
  have 1: "only_new snap snap1"
    using only_new_chunkify_unless_cached [of snap ext imp "record" "lookup_cached ext snap record"] c
    by simp
  show ?thesis
  proof (cases r)
    case None
    then show ?thesis using c 1 by (simp add: scanner_job_object_def)
  next
    case (Some v)
    have "object_checked ext snap1 v"
      using object_checked_chunkify_unless_cached c Some by blast
    then have "only_new snap1 (snd (put_object ext snap1 record v))"
      by (rule only_new_put_object)
    with 1 have "only_new snap (snd (put_object ext snap1 record v))"
      by (rule only_new_trans)
    then show ?thesis using c Some by (simp add: scanner_job_object_def)
  qed
qed

text \<open>
  C6. Deduplication against the aggregate state. Whatever the scanner job does for a
  record (cache lookup, chunking, object submission), every blob that it hands to the
  packer is a chunk or an object whose (kind, MAC) pair the aggregate state did not
  contain; a pair that the aggregate state contains is never submitted.
\<close>

theorem deduplication_against_aggregate:
  "\<exists>new. packer (snd (scanner_job_object ext imp snap record)) = packer snap @ new
     \<and> aggregate (snd (scanner_job_object ext imp snap record)) = aggregate snap
     \<and> (\<forall>b \<in> set new. (fst b = RT_CHUNK \<or> fst b = RT_OBJECT)
           \<and> \<not> BlobExists snap (fst b) (fst (snd b)))"
  using only_new_scanner_job_object [of snap ext imp "record"]
  unfolding only_new_def by blast

theorem deduplication_against_aggregate_witness:
  "packer (snd (scanner_job_object example_externals example_importer new_backup hello_record))
     = [(RT_CHUNK, [104, 101, 108, 108, 111] @ replicate 27 0, [104, 101, 108, 108, 111]),
        (RT_OBJECT, 1 # [104, 101, 108, 108, 111] @ replicate 26 0,
         1 # [104, 101, 108, 108, 111] @ replicate 27 0)]
   \<and> \<not> BlobExists new_backup RT_CHUNK ([104, 101, 108, 108, 111] @ replicate 27 0)
   \<and> \<not> BlobExists new_backup RT_OBJECT (1 # [104, 101, 108, 108, 111] @ replicate 26 0)
   \<and> packer (snd (scanner_job_object example_externals example_importer chunk_only_backup hello_record))
     = [(RT_OBJECT, 1 # [104, 101, 108, 108, 111] @ replicate 26 0,
         1 # [104, 101, 108, 108, 111] @ replicate 27 0)]
   \<and> BlobExists chunk_only_backup RT_CHUNK ([104, 101, 108, 108, 111] @ replicate 27 0)
   \<and> packer (snd (scanner_job_object example_externals example_importer second_backup hello_record))
     = []"
proof -
  let ?c = "(RT_CHUNK, [104, 101, 108, 108, 111] @ replicate 27 0, [104, 101, 108, 108, 111])
              :: resource \<times> MAC \<times> bytes"
  let ?o = "(RT_OBJECT, 1 # [104, 101, 108, 108, 111] @ replicate 26 0,
         1 # [104, 101, 108, 108, 111] @ replicate 27 0) :: resource \<times> MAC \<times> bytes"
  have p1: "packer (snd (scanner_job_object example_externals example_importer new_backup hello_record))
     = [?c, ?o]"
    by code_simp
  have p2: "packer (snd (scanner_job_object example_externals example_importer chunk_only_backup hello_record))
     = [?o]"
    by code_simp
  have p3: "packer (snd (scanner_job_object example_externals example_importer second_backup hello_record))
     = []"
    by code_simp
  have b: "BlobExists chunk_only_backup RT_CHUNK ([104, 101, 108, 108, 111] @ replicate 27 0)"
    by (simp add: BlobExists_def chunk_only_backup_def)
  have e: "packer new_backup = []" by (simp add: new_backup_def)
  from deduplication_against_aggregate [of example_externals example_importer new_backup hello_record]
  obtain new where n: "packer (snd (scanner_job_object example_externals example_importer new_backup hello_record))
       = packer new_backup @ new"
    and a: "\<forall>b \<in> set new. (fst b = RT_CHUNK \<or> fst b = RT_OBJECT)
           \<and> \<not> BlobExists new_backup (fst b) (fst (snd b))"
    by blast
  from n p1 e have "new = [?c, ?o]" by simp
  with a have "\<not> BlobExists new_backup RT_CHUNK ([104, 101, 108, 108, 111] @ replicate 27 0)"
    and "\<not> BlobExists new_backup RT_OBJECT (1 # [104, 101, 108, 108, 111] @ replicate 26 0)"
    by simp_all
  with p1 p2 p3 b show ?thesis by blast
qed

section \<open>Chunker boundary cases\<close>

lemma processChunk_new:
  assumes "processChunk ext (new_chunking ext record, snap0) data = (e, ck, snap1)"
  shows "Chunks (object ck)
         = [\<lparr>Chunk_ContentMAC = ComputeMAC ext data, Chunk_Length = of_nat (length data)\<rparr>]"
  using assms
  by (auto simp: processChunk_def new_chunking_def Let_def split: if_splits sum.splits)

lemma processChunk_ok:
  assumes "EncodeBuffer ext data = Inr enc"
  shows "fst (processChunk ext s data) = None"
  using assms by (simp add: processChunk_def Let_def PutBlob_def)

lemma chunkify_result:
  assumes "fst (chunkify ext imp snap record) = Inr obj"
  shows "\<exists>rd ck snap1. open_reader imp record = Inr rd
     \<and> chunkify_cases ext record rd
          (new_chunking ext record, snap\<lparr>reads := reads snap @ [Pathname record]\<rparr>)
        = (None, ck, snap1)
     \<and> Chunks obj = Chunks (object ck)"
proof -
  let ?s0 = "(new_chunking ext record, snap\<lparr>reads := reads snap @ [Pathname record]\<rparr>)"
  obtain rd where rd: "open_reader imp record = Inr rd"
    using assms by (cases "open_reader imp record") (auto simp: chunkify_def)
  obtain e ck snap1 where c: "chunkify_cases ext record rd ?s0 = (e, ck, snap1)"
    by (cases "chunkify_cases ext record rd ?s0")
  have "e = None \<and> Chunks obj = Chunks (object ck)"
    using assms rd c by (cases e) (auto simp: chunkify_def)
  with rd c show ?thesis by blast
qed

text \<open>
  C5. Chunker boundary cases, as the code has them. When \<open>chunkify\<close> returns an object
  for a record whose file size is 0, the object has exactly one chunk, of length 0 (the
  chunk of the empty payload). When the file size is positive
  and below the configured minimal chunk size, the object has exactly one chunk, made
  of everything that the reader delivers, read at once: its MAC is the MAC of the bytes
  read and its length is their number, whatever size the file info announces. In both
  cases \<open>chunkify\<close> does return an object when the reader opens, reading does not fail
  and the blob codec does not fail.
\<close>

theorem chunkify_boundary:
  "(fst (chunkify ext imp snap record) = Inr obj \<and> Lsize (FileInfo record) = 0 \<longrightarrow>
      Chunks obj = [\<lparr>Chunk_ContentMAC = ComputeMAC ext [], Chunk_Length = 0\<rparr>])
   \<and> (fst (chunkify ext imp snap record) = Inr obj
        \<and> 0 < sint (Lsize (FileInfo record))
        \<and> sint (Lsize (FileInfo record)) < uint (MinSize ext) \<longrightarrow>
      (\<exists>rd. open_reader imp record = Inr rd
         \<and> Chunks obj = [\<lparr>Chunk_ContentMAC = ComputeMAC ext (content rd),
                           Chunk_Length = of_nat (length (content rd))\<rparr>]))
   \<and> (open_reader imp record = Inr rd0 \<and> read_error rd0 = None
        \<and> (\<forall>d. \<exists>enc. EncodeBuffer ext d = Inr enc)
        \<and> 0 \<le> sint (Lsize (FileInfo record))
        \<and> sint (Lsize (FileInfo record)) < uint (MinSize ext) \<longrightarrow>
      (\<exists>obj'. fst (chunkify ext imp snap record) = Inr obj' \<and> length (Chunks obj') = 1))"
proof (intro conjI impI)
  let ?s0 = "(new_chunking ext record, snap\<lparr>reads := reads snap @ [Pathname record]\<rparr>)"
  {
    assume a: "fst (chunkify ext imp snap record) = Inr obj \<and> Lsize (FileInfo record) = 0"
    from chunkify_result [of ext imp snap "record" obj] a obtain rd ck snap1 where
      c: "chunkify_cases ext record rd ?s0 = (None, ck, snap1)" and o: "Chunks obj = Chunks (object ck)"
      by blast
    from c a have "processChunk ext ?s0 [] = (None, ck, snap1)"
      by (simp add: chunkify_cases_def)
    from processChunk_new [OF this] o
    show "Chunks obj = [\<lparr>Chunk_ContentMAC = ComputeMAC ext [], Chunk_Length = 0\<rparr>]"
      by simp
  }
  {
    assume a: "fst (chunkify ext imp snap record) = Inr obj
        \<and> 0 < sint (Lsize (FileInfo record))
        \<and> sint (Lsize (FileInfo record)) < uint (MinSize ext)"
    then have nz: "Lsize (FileInfo record) \<noteq> 0" by auto
    from chunkify_result [of ext imp snap "record" obj] a obtain rd ck snap1 where
      rd: "open_reader imp record = Inr rd" and
      c: "chunkify_cases ext record rd ?s0 = (None, ck, snap1)" and o: "Chunks obj = Chunks (object ck)"
      by blast
    from c a nz have ra: "ReadAll rd = Inr (content rd)"
      by (cases "read_error rd") (auto simp: chunkify_cases_def ReadAll_def)
    with c a nz have "processChunk ext ?s0 (content rd) = (None, ck, snap1)"
      by (simp add: chunkify_cases_def)
    from processChunk_new [OF this] o
    have ch: "Chunks obj = [\<lparr>Chunk_ContentMAC = ComputeMAC ext (content rd),
                           Chunk_Length = of_nat (length (content rd))\<rparr>]"
      by simp
    with rd
    show "\<exists>rd. open_reader imp record = Inr rd
         \<and> Chunks obj = [\<lparr>Chunk_ContentMAC = ComputeMAC ext (content rd),
                           Chunk_Length = of_nat (length (content rd))\<rparr>]"
      by blast
  }
  {
    assume a: "open_reader imp record = Inr rd0 \<and> read_error rd0 = None
        \<and> (\<forall>d. \<exists>enc. EncodeBuffer ext d = Inr enc)
        \<and> 0 \<le> sint (Lsize (FileInfo record))
        \<and> sint (Lsize (FileInfo record)) < uint (MinSize ext)"
    define data where "data = (if Lsize (FileInfo record) = 0 then [] else content rd0)"
    have cases: "chunkify_cases ext record rd0 ?s0 = processChunk ext ?s0 data"
      using a by (simp add: chunkify_cases_def ReadAll_def data_def)
    obtain e ck snap1 where p: "processChunk ext ?s0 data = (e, ck, snap1)"
      by (cases "processChunk ext ?s0 data")
    from a obtain enc where "EncodeBuffer ext data = Inr enc" by blast
    from processChunk_ok [OF this, of ?s0] p have e: "e = None" by simp
    have "Chunks (object ck) = [\<lparr>Chunk_ContentMAC = ComputeMAC ext data, Chunk_Length = of_nat (length data)\<rparr>]"
      using processChunk_new [OF p] .
    then show "\<exists>obj'. fst (chunkify ext imp snap record) = Inr obj' \<and> length (Chunks obj') = 1"
      using a cases p e by (simp add: chunkify_def)
  }
qed

theorem chunkify_boundary_witness:
  "fst (chunkify example_externals example_importer new_backup empty_record)
     = Inr \<lparr>Object_ContentMAC = replicate 32 0,
            Chunks = [\<lparr>Chunk_ContentMAC = replicate 32 0, Chunk_Length = 0\<rparr>],
            ContentType = ''application/octet-stream''\<rparr>
   \<and> Lsize (FileInfo empty_record) = 0
   \<and> fst (chunkify example_externals example_importer new_backup hello_record)
     = Inr \<lparr>Object_ContentMAC = [104, 101, 108, 108, 111] @ replicate 27 0,
            Chunks = [\<lparr>Chunk_ContentMAC = [104, 101, 108, 108, 111] @ replicate 27 0, Chunk_Length = 5\<rparr>],
            ContentType = ''application/octet-stream''\<rparr>
   \<and> sint (Lsize (FileInfo hello_record)) = 5 \<and> uint (MinSize example_externals) = 64
   \<and> open_reader example_importer hello_record
       = Inr \<lparr>content = [104, 101, 108, 108, 111], read_error = None\<rparr>
   \<and> (\<exists>obj'. fst (chunkify example_externals example_importer new_backup hello_record) = Inr obj'
         \<and> length (Chunks obj') = 1)"
proof -
  let ?o0 = "\<lparr>Object_ContentMAC = replicate 32 0,
            Chunks = [\<lparr>Chunk_ContentMAC = replicate 32 0, Chunk_Length = 0\<rparr>],
            ContentType = ''application/octet-stream''\<rparr>"
  let ?o5 = "\<lparr>Object_ContentMAC = [104, 101, 108, 108, 111] @ replicate 27 0,
            Chunks = [\<lparr>Chunk_ContentMAC = [104, 101, 108, 108, 111] @ replicate 27 0, Chunk_Length = 5\<rparr>],
            ContentType = ''application/octet-stream''\<rparr>"
  let ?rd = "\<lparr>content = [104, 101, 108, 108, 111], read_error = None\<rparr>"
  have e0: "fst (chunkify example_externals example_importer new_backup empty_record) = Inr ?o0"
    by code_simp
  have z: "Lsize (FileInfo empty_record) = 0"
    by (simp add: empty_record_def example_fileinfo_def)
  have e5: "fst (chunkify example_externals example_importer new_backup hello_record) = Inr ?o5"
    by code_simp
  have s: "sint (Lsize (FileInfo hello_record)) = 5" "uint (MinSize example_externals) = 64"
    by (simp_all add: hello_record_def example_fileinfo_def example_externals_def)
  have rd: "open_reader example_importer hello_record = Inr ?rd" "read_error ?rd = None"
    by (simp_all add: open_reader_def example_importer_def hello_record_def)
  have enc: "\<forall>d. \<exists>enc. EncodeBuffer example_externals d = Inr enc"
    by (simp add: example_externals_def)
  note t0 = chunkify_boundary [of example_externals example_importer new_backup empty_record ?o0 ?rd]
  note t5 = chunkify_boundary [of example_externals example_importer new_backup hello_record ?o5 ?rd]
  from t0 e0 z have "Chunks ?o0 = [\<lparr>Chunk_ContentMAC = ComputeMAC example_externals [], Chunk_Length = 0\<rparr>]"
    by blast
  from t5 rd enc s have "\<exists>obj'. fst (chunkify example_externals example_importer new_backup hello_record) = Inr obj'
         \<and> length (Chunks obj') = 1"
    by auto
  with e0 z e5 s rd(1) show ?thesis by blast
qed

text \<open>
  The claim as stated fails when the reader delivers fewer bytes than the file info
  announces: \<open>/hello.txt\<close> announced with 10 bytes, below the minimal chunk size 64, and
  read as the 5 bytes of \<open>hello\<close>, gives one chunk of length 5, not 10.
\<close>

theorem short_read_chunk_length:
  "sint (Lsize (FileInfo shrunk_record)) = 10
   \<and> uint (MinSize example_externals) = 64
   \<and> open_reader example_importer shrunk_record
       = Inr \<lparr>content = [104, 101, 108, 108, 111], read_error = None\<rparr>
   \<and> fst (chunkify example_externals example_importer new_backup shrunk_record)
     = Inr \<lparr>Object_ContentMAC = [104, 101, 108, 108, 111] @ replicate 27 0,
            Chunks = [\<lparr>Chunk_ContentMAC = [104, 101, 108, 108, 111] @ replicate 27 0, Chunk_Length = 5\<rparr>],
            ContentType = ''application/octet-stream''\<rparr>"
proof -
  have 1: "sint (Lsize (FileInfo shrunk_record)) = 10" "uint (MinSize example_externals) = 64"
    by (simp_all add: shrunk_record_def example_fileinfo_def example_externals_def)
  have 2: "open_reader example_importer shrunk_record
       = Inr \<lparr>content = [104, 101, 108, 108, 111], read_error = None\<rparr>"
    by (simp add: open_reader_def example_importer_def shrunk_record_def)
  have 3: "fst (chunkify example_externals example_importer new_backup shrunk_record)
     = Inr \<lparr>Object_ContentMAC = [104, 101, 108, 108, 111] @ replicate 27 0,
            Chunks = [\<lparr>Chunk_ContentMAC = [104, 101, 108, 108, 111] @ replicate 27 0, Chunk_Length = 5\<rparr>],
            ContentType = ''application/octet-stream''\<rparr>"
    by code_simp
  from 1 2 3 show ?thesis by blast
qed

section \<open>Reuse of cached objects\<close>

























section \<open>Scan errors\<close>

text \<open>
  The goroutine of a scan result: what it does to the abort flag and to the error index.
\<close>

lemma recordEntry_fields:
  "aborted (snd (recordEntry ext bc path entry)) = aborted bc
   \<and> abortedReason (snd (recordEntry ext bc path entry)) = abortedReason bc
   \<and> erridx (snd (recordEntry ext bc path entry)) = erridx bc"
  by (simp add: recordEntry_def split: sum.splits)

lemma importer_record_aborts:
  assumes "aborts imp r"
  shows "importer_record ext imp repoLocation s r
     = ((fst s)\<lparr>aborted := True, abortedReason := map_option Err (Result_Error r)\<rparr>, snd s)"
  using assms by (cases "Result_Error r") (auto simp: aborts_def importer_record_def)

lemma importer_record_no_abort:
  assumes "\<not> aborts imp r"
  shows "aborted (fst (importer_record ext imp repoLocation s r)) = aborted (fst s)
     \<and> abortedReason (fst (importer_record ext imp repoLocation s r)) = abortedReason (fst s)"
proof (cases "Result_Error r")
  case (Some e)
  then show ?thesis using assms
    by (auto simp: aborts_def importer_record_def recordError_abort_fields)
next
  case None
  show ?thesis
  proof (cases "Result_Record r")
    case n: None
    then show ?thesis using None by (simp add: importer_record_def)
  next
    case (Some rec)
    obtain e bc where re: "recordEntry ext (fst s) (Pathname rec) (NewEntry (Dir (Pathname rec)) rec) = (e, bc)"
      by (cases "recordEntry ext (fst s) (Pathname rec) (NewEntry (Dir (Pathname rec)) rec)")
    with recordEntry_fields [of ext "fst s" "Pathname rec" "NewEntry (Dir (Pathname rec)) rec"]
    have "aborted bc = aborted (fst s)" "abortedReason bc = abortedReason (fst s)" by simp_all
    then show ?thesis using None Some re
      by (cases e) (simp_all add: importer_record_def recordError_abort_fields)
  qed
qed

lemma importer_record_latch:
  "aborted (fst s) \<Longrightarrow> aborted (fst (importer_record ext imp repoLocation s r))"
  by (cases "aborts imp r") (simp_all add: importer_record_aborts importer_record_no_abort)

lemma importer_record_keeps:
  assumes "map_of (erridx (fst s)) p \<noteq> None" "\<not> aborts imp r"
  shows "map_of (erridx (fst (importer_record ext imp repoLocation s r))) p \<noteq> None"
proof (cases "Result_Error r")
  case (Some e)
  then show ?thesis using assms
    by (auto simp: aborts_def importer_record_def recordError_keeps)
next
  case None
  show ?thesis
  proof (cases "Result_Record r")
    case n: None
    then show ?thesis using None assms by (simp add: importer_record_def)
  next
    case (Some rec)
    obtain e bc where re: "recordEntry ext (fst s) (Pathname rec) (NewEntry (Dir (Pathname rec)) rec) = (e, bc)"
      by (cases "recordEntry ext (fst s) (Pathname rec) (NewEntry (Dir (Pathname rec)) rec)")
    with recordEntry_fields [of ext "fst s" "Pathname rec" "NewEntry (Dir (Pathname rec)) rec"]
    have "erridx bc = erridx (fst s)" by simp
    with assms have b: "map_of (erridx bc) p \<noteq> None" by simp
    have k: "map_of (erridx (recordError bc q m)) p \<noteq> None" for q m
      using b by (rule recordError_keeps)
    show ?thesis using None Some re b k assms(1)
      by (cases e) (simp_all add: importer_record_def)
  qed
qed

lemma importer_record_records:
  assumes "Result_Error r \<noteq> None" "\<not> aborts imp r"
  shows "map_of (erridx (fst (importer_record ext imp repoLocation s r))) (error_path r) \<noteq> None"
  using assms recordError_recorded
  by (cases "Result_Error r") (auto simp: aborts_def importer_record_def error_path_def)

text \<open>
  The invariant of the importer job holds at the start and is kept by every step of
  the loop and every goroutine, in any order; the abort flag, once set, stays set.
\<close>

lemma set_remove_nth:
  "i < length xs \<Longrightarrow> set xs = insert (xs ! i) (set (take i xs @ drop (Suc i) xs))"
proof -
  assume "i < length xs"
  then have "xs = take i xs @ (xs ! i) # drop (Suc i) xs" by (simp add: id_take_nth_drop)
  then have "set xs = set (take i xs @ (xs ! i) # drop (Suc i) xs)" by simp
  then show ?thesis by simp
qed

lemma job_inv_loop_step:
  assumes "job_inv imp excludes results j"
  shows "job_inv imp excludes results (loop_step excludes slots j)"
proof (cases "admitted j")
  case (Some r)
  show ?thesis
  proof (cases "length (running j) < slots")
    case True
    have t: "todo (j\<lparr>admitted := None, running := running j @ [r]\<rparr>) = todo j"
      using Some by (auto simp: todo_def)
    have "loop_step excludes slots j = j\<lparr>admitted := None, running := running j @ [r]\<rparr>"
      using Some True by (simp add: loop_step_def)
    then show ?thesis using assms Some t by (auto simp: job_inv_def)
  next
    case False
    then show ?thesis using assms Some by (simp add: loop_step_def)
  qed
next
  case None
  show ?thesis
  proof (cases "pending j")
    case Nil
    then show ?thesis using assms None by (simp add: loop_step_def)
  next
    case (Cons r scanner)
    show ?thesis
    proof (cases "aborted (fst (shared j))")
      case True
      then have "loop_step excludes slots j = j\<lparr>pending := []\<rparr>"
        using None Cons by (simp add: loop_step_def)
      then show ?thesis using assms True by (auto simp: job_inv_def todo_def)
    next
      case na: False
      show ?thesis
      proof (cases "skipExcludedPathname excludes r")
        case True
        then have l: "loop_step excludes slots j = j\<lparr>pending := scanner\<rparr>"
          using None Cons na by (simp add: loop_step_def)
        have t: "todo j = insert r (todo (j\<lparr>pending := scanner\<rparr>))"
          using Cons by (auto simp: todo_def)
        show ?thesis unfolding l using assms True na t None
          by (auto simp: job_inv_def)
      next
        case False
        then have l: "loop_step excludes slots j = j\<lparr>pending := scanner, admitted := Some r\<rparr>"
          using None Cons na by (simp add: loop_step_def)
        have t: "todo (j\<lparr>pending := scanner, admitted := Some r\<rparr>) = todo j"
          using Cons None by (auto simp: todo_def)
        show ?thesis unfolding l using assms False na t None
          by (auto simp: job_inv_def)
      qed
    qed
  qed
qed

lemma job_inv_handler_step:
  assumes "job_inv imp excludes results j"
  shows "job_inv imp excludes results (handler_step ext imp repoLocation i j)"
proof (cases "i < length (running j)")
  case False
  then show ?thesis using assms by (simp add: handler_step_def)
next
  case True
  define r0 where "r0 = running j ! i"
  define j' where "j' = j\<lparr>running := take i (running j) @ drop (Suc i) (running j),
             shared := importer_record ext imp repoLocation (shared j) r0\<rparr>"
  have h: "handler_step ext imp repoLocation i j = j'"
    using True by (simp add: handler_step_def j'_def r0_def)
  have sr: "set (running j) = insert r0 (set (running j'))"
    using set_remove_nth [OF True] by (simp add: j'_def r0_def)
  then have r0: "r0 \<in> set (running j)" by simp
  have t: "todo j = insert r0 (todo j')"
    using sr by (auto simp: todo_def j'_def)
  have sub: "set (running j') \<subseteq> set (running j)" using sr by auto
  from assms r0 have r0res: "r0 \<in> set results" "\<not> skipExcludedPathname excludes r0"
    by (auto simp: job_inv_def todo_def)
  have 1: "\<forall>r \<in> todo j'. r \<in> set results"
    using assms t by (auto simp: job_inv_def)
  have 2: "\<forall>r \<in> set_option (admitted j') \<union> set (running j'). \<not> skipExcludedPathname excludes r"
    using assms sub by (auto simp: job_inv_def j'_def)
  have sh: "shared j' = importer_record ext imp repoLocation (shared j) r0"
    by (simp add: j'_def)
  have 3: "aborted (fst (shared j')) \<longrightarrow>
           (\<exists>r \<in> set results. \<not> skipExcludedPathname excludes r \<and> aborts imp r
              \<and> abortedReason (fst (shared j')) = map_option Err (Result_Error r))"
  proof (cases "aborts imp r0")
    case True
    then show ?thesis using r0res by (auto simp: sh importer_record_aborts)
  next
    case False
    from importer_record_no_abort [OF False, of ext repoLocation "shared j"] assms
    show ?thesis by (auto simp: sh job_inv_def)
  qed
  have 4: "\<not> aborted (fst (shared j')) \<longrightarrow>
           (\<forall>r \<in> set results. \<not> skipExcludedPathname excludes r \<and> Result_Error r \<noteq> None \<longrightarrow>
              r \<in> todo j'
              \<or> (\<not> aborts imp r \<and> map_of (erridx (fst (shared j'))) (error_path r) \<noteq> None))"
  proof (intro impI ballI)
    fix r
    assume na': "\<not> aborted (fst (shared j'))" and rr: "r \<in> set results"
      and rc: "\<not> skipExcludedPathname excludes r \<and> Result_Error r \<noteq> None"
    have nab0: "\<not> aborts imp r0"
      using na' by (auto simp: sh importer_record_aborts)
    from importer_record_no_abort [OF nab0, of ext repoLocation "shared j"] na'
    have na: "\<not> aborted (fst (shared j))" by (simp add: sh)
    with assms rr rc have c: "r \<in> todo j
         \<or> (\<not> aborts imp r \<and> map_of (erridx (fst (shared j))) (error_path r) \<noteq> None)"
      by (auto simp: job_inv_def)
    show "r \<in> todo j'
              \<or> (\<not> aborts imp r \<and> map_of (erridx (fst (shared j'))) (error_path r) \<noteq> None)"
    proof (cases "r \<in> todo j'")
      case True
      then show ?thesis by simp
    next
      case False
      show ?thesis
      proof (cases "r = r0")
        case True
        with importer_record_records [of r0 imp ext repoLocation "shared j"] rc nab0
        show ?thesis by (simp add: sh)
      next
        case ne: False
        with c t False have "\<not> aborts imp r \<and> map_of (erridx (fst (shared j))) (error_path r) \<noteq> None"
          by auto
        with importer_record_keeps [of "shared j" "error_path r" imp r0 ext repoLocation] nab0
        show ?thesis by (simp add: sh)
      qed
    qed
  qed
  from 1 2 3 4 show ?thesis unfolding h by (simp add: job_inv_def)
qed

lemma job_inv_importerJob:
  "job_inv imp excludes results j
   \<Longrightarrow> job_inv imp excludes results (importerJob ext imp repoLocation excludes slots events j)"
proof (induction events arbitrary: j)
  case Nil
  then show ?case by simp
next
  case (Cons ev events)
  show ?case
  proof (cases ev)
    case Loop
    with Cons.IH [OF job_inv_loop_step [OF Cons.prems]] show ?thesis by simp
  next
    case (Handler i)
    with Cons.IH [OF job_inv_handler_step [OF Cons.prems]] show ?thesis by simp
  qed
qed

lemma job_inv_start:
  "\<not> aborted bc \<Longrightarrow> job_inv imp excludes results (start_job results (bc, files))"
  by (simp add: job_inv_def start_job_def todo_def)

lemma latch_loop_step: "shared (loop_step excludes slots j) = shared j"
  by (simp add: loop_step_def split: option.splits list.splits)

lemma latch_importerJob:
  "aborted (fst (shared j))
   \<Longrightarrow> aborted (fst (shared (importerJob ext imp repoLocation excludes slots events j)))"
proof (induction events arbitrary: j)
  case Nil
  then show ?case by simp
next
  case (Cons ev events)
  show ?case
  proof (cases ev)
    case Loop
    with Cons.IH [of "loop_step excludes slots j"] Cons.prems show ?thesis
      by (simp add: latch_loop_step)
  next
    case (Handler i)
    have "aborted (fst (shared (handler_step ext imp repoLocation i j)))"
      using Cons.prems by (simp add: handler_step_def importer_record_latch)
    with Cons.IH Handler show ?thesis by simp
  qed
qed

text \<open>
  The importer job can always finish: with at least one slot, the run that handles each
  result before the loop goes on ends with the loop over and no goroutine left.
\<close>

lemma in_order_round:
  assumes "running j = []" "0 < slots"
  shows "running (handler_step ext imp repoLocation 0 (loop_step excludes slots j)) = []
     \<and> (2 * length (pending (handler_step ext imp repoLocation 0 (loop_step excludes slots j)))
          + (if admitted (handler_step ext imp repoLocation 0 (loop_step excludes slots j)) = None
             then 0 else 1)
        \<le> 2 * length (pending j) + (if admitted j = None then 0 else 1) - 1)"
proof (cases "admitted j")
  case (Some r)
  then show ?thesis using assms by (simp add: loop_step_def handler_step_def)
next
  case None
  show ?thesis
  proof (cases "pending j")
    case Nil
    then show ?thesis using assms None by (simp add: loop_step_def handler_step_def)
  next
    case (Cons r scanner)
    then show ?thesis using assms None by (simp add: loop_step_def handler_step_def)
  qed
qed

lemma in_order_rounds:
  assumes "0 < slots"
  shows "running j = []
     \<Longrightarrow> 2 * length (pending j) + (if admitted j = None then 0 else 1) \<le> k
     \<Longrightarrow> finished (importerJob ext imp repoLocation excludes slots
                     (concat (replicate k [Loop, Handler 0])) j)"
proof (induction k arbitrary: j)
  case 0
  then show ?case by (simp add: finished_def split: if_splits)
next
  case (Suc k)
  let ?j = "handler_step ext imp repoLocation 0 (loop_step excludes slots j)"
  from in_order_round [OF Suc.prems(1) assms, of ext imp repoLocation excludes] Suc.prems(2)
  have "running ?j = []"
    "2 * length (pending ?j) + (if admitted ?j = None then 0 else 1) \<le> k"
    by linarith+
  from Suc.IH [OF this] show ?case by simp
qed

lemma importer_run_in_order_finishes:
  "0 < slots
   \<Longrightarrow> finished (importer_run ext imp repoLocation excludes slots (in_order (length scanner))
                   scanner bc)"
  unfolding importer_run_def in_order_def
  by (rule in_order_rounds) (simp_all add: start_job_def)

text \<open>
  The end of \<open>Backup\<close>, and what runs between the importer job and the abort test: the
  scanner jobs and the roll-up leave the abort flag and reason as they are.
\<close>

lemma Backup_end_aborted:
  assumes "aborted bc"
  shows "Backup_end bc steps \<noteq> Committed c \<and> Backup_end bc steps \<noteq> Panicked
     \<and> (all_steps_succeed steps \<longrightarrow> Backup_end bc steps = Returned (abortedReason bc))"
  using assms
  by (simp add: Backup_end_def all_steps_succeed_def split: option.splits sum.splits)

lemma Backup_end_failed:
  assumes "\<not> all_steps_succeed steps"
  shows "\<exists>err. Backup_end bc steps = Returned (Some err)"
  using assms
  by (auto simp: Backup_end_def all_steps_succeed_def isl_def split: option.splits sum.splits)

lemma Backup_end_commits:
  assumes "\<not> aborted bc" "all_steps_succeed steps" "rolled_up steps = Inr (Some summary)"
  shows "Backup_end bc steps = Committed (Commit steps)"
  using assms
  by (auto simp: Backup_end_def all_steps_succeed_def split: option.splits sum.splits)

lemma abort_fields_processChunk:
  "aborted (snd (snd (processChunk ext s data))) = aborted (snd s)
   \<and> abortedReason (snd (snd (processChunk ext s data))) = abortedReason (snd s)"
  by (simp add: processChunk_def Let_def PutBlob_def split: sum.splits)

lemma abort_fields_chunk_loop:
  "aborted (snd (snd (chunk_loop ext results s))) = aborted (snd s)
   \<and> abortedReason (snd (snd (chunk_loop ext results s))) = abortedReason (snd s)"
proof (induction results arbitrary: s)
  case Nil
  then show ?case by simp
next
  case (Cons r results)
  obtain cdcChunk err where r: "r = (cdcChunk, err)" by (cases r)
  show ?case
  proof (cases cdcChunk)
    case None
    then show ?thesis using r by (cases err) simp_all
  next
    case (Some data)
    obtain e s' where p: "processChunk ext s data = (e, s')"
      by (cases "processChunk ext s data")
    have step: "aborted (snd s') = aborted (snd s) \<and> abortedReason (snd s') = abortedReason (snd s)"
      using abort_fields_processChunk [of ext s data] p by simp
    show ?thesis
      using r Some p step Cons.IH [of s']
      by (cases err; cases e) simp_all
  qed
qed

lemma abort_fields_chunkify:
  "aborted (snd (chunkify ext imp snap record)) = aborted snap
   \<and> abortedReason (snd (chunkify ext imp snap record)) = abortedReason snap"
proof (cases "open_reader imp record")
  case (Inl err)
  then show ?thesis by (simp add: chunkify_def)
next
  case (Inr rd)
  let ?s0 = "(new_chunking ext record, snap\<lparr>reads := reads snap @ [Pathname record]\<rparr>)"
  obtain e ck snap1 where c: "chunkify_cases ext record rd ?s0 = (e, ck, snap1)"
    by (cases "chunkify_cases ext record rd ?s0")
  have "aborted (snd (snd (chunkify_cases ext record rd ?s0))) = aborted (snd ?s0)
     \<and> abortedReason (snd (snd (chunkify_cases ext record rd ?s0))) = abortedReason (snd ?s0)"
    by (simp add: chunkify_cases_def abort_fields_processChunk abort_fields_chunk_loop
        split: sum.splits)
  with c have "aborted snap1 = aborted snap \<and> abortedReason snap1 = abortedReason snap" by simp
  then show ?thesis using Inr c by (cases e) (simp_all add: chunkify_def)
qed

lemma abort_fields_put_object:
  "aborted (snd (put_object ext snap record v)) = aborted snap
   \<and> abortedReason (snd (put_object ext snap record v)) = abortedReason snap"
  by (simp add: put_object_def recordError_abort_fields PutBlob_def split: option.splits sum.splits)

lemma abort_fields_chunkify_unless_cached:
  "aborted (snd (chunkify_unless_cached ext imp snap record v)) = aborted snap
   \<and> abortedReason (snd (chunkify_unless_cached ext imp snap record v)) = abortedReason snap"
proof -
  obtain r snap1 where c: "chunkify ext imp snap record = (r, snap1)"
    by (cases "chunkify ext imp snap record")
  have 1: "aborted snap1 = aborted snap \<and> abortedReason snap1 = abortedReason snap"
    using abort_fields_chunkify [of ext imp snap "record"] c by simp
  show ?thesis
    using c 1
    by (auto simp: chunkify_unless_cached_def recordError_abort_fields split: sum.splits)
qed

lemma abort_fields_scanner_job_object:
  "aborted (snd (scanner_job_object ext imp snap record)) = aborted snap
   \<and> abortedReason (snd (scanner_job_object ext imp snap record)) = abortedReason snap"
proof -
  obtain r snap1 where c: "chunkify_unless_cached ext imp snap record (lookup_cached ext snap record) = (r, snap1)"
    by (cases "chunkify_unless_cached ext imp snap record (lookup_cached ext snap record)")
  with abort_fields_chunkify_unless_cached [of ext imp snap "record" "lookup_cached ext snap record"]
  have "aborted snap1 = aborted snap \<and> abortedReason snap1 = abortedReason snap" by simp
  with c show ?thesis
    by (cases r) (simp_all add: scanner_job_object_def abort_fields_put_object)
qed

lemma recordEntry_abort_fields:
  "recordEntry ext bc path entry = (e, bc')
   \<Longrightarrow> aborted bc' = aborted bc \<and> abortedReason bc' = abortedReason bc"
  using recordEntry_fields [of ext bc path entry] by simp

lemma abort_fields_rollup_directory:
  assumes "rollup_directory ext bc dirPath data = Inr (bc', summary)"
  shows "aborted bc' = aborted bc \<and> abortedReason bc' = abortedReason bc"
  using assms
  by (auto simp: rollup_directory_def Let_def dest!: recordEntry_abort_fields
      split: sum.splits prod.splits option.splits)

lemma abort_fields_rollup_loop:
  "rollup_loop ext diriter s = Inr s'
   \<Longrightarrow> aborted (fst s') = aborted (fst s) \<and> abortedReason (fst s') = abortedReason (fst s)"
proof (induction diriter arbitrary: s)
  case Nil
  then show ?case by simp
next
  case (Cons dir diriter)
  obtain bc summary where d: "rollup_directory ext (fst s) (fst dir) (snd dir) = Inr (bc, summary)"
    using Cons.prems by (cases "rollup_directory ext (fst s) (fst dir) (snd dir)") auto
  from abort_fields_rollup_directory [OF d]
  have f: "aborted bc = aborted (fst s) \<and> abortedReason bc = abortedReason (fst s)" .
  show ?case
  proof (cases "fst dir = ''/''")
    case True
    with Cons.prems d have "rollup_loop ext diriter (bc, Some summary) = Inr s'"
      by (simp split: if_splits)
    from Cons.IH [OF this] f show ?thesis by simp
  next
    case False
    with Cons.prems d have "rollup_loop ext diriter (bc, snd s) = Inr s'" by simp
    from Cons.IH [OF this] f show ?thesis by simp
  qed
qed

lemma abort_fields_rollup:
  "rollup ext bc = Inr (bc', rootSummary)
   \<Longrightarrow> aborted bc' = aborted bc \<and> abortedReason bc' = abortedReason bc"
  unfolding rollup_def using abort_fields_rollup_loop [of ext _ "(bc, None)" "(bc', rootSummary)"]
  by simp

text \<open>
  C2, as the code has it. The goroutine that handles a scan error whose path is the
  importer's root, or is shorter than the root, sets the abort flag with the error as
  the reason; for a scan error on any other path, that is one different from the root
  and at least as long, it leaves the abort flag and reason alone and records the error
  in the error index under its path (with that path and message, unless the path has
  an item already). No step of the importer job resets the abort flag. For every run
  of the importer job over the results of a scan, from a context that is not aborted,
  and every scan error among the results that the exclude patterns do not drop: once
  the job has finished, the backup is aborted if the error is on the root or on a
  shorter path; an aborted backup has the message of such a scan error as its reason,
  and with the abort flag set and this reason \<open>Backup\<close> never commits: it returns the
  reason, unless one of its steps before the abort test fails, and then it returns an
  error of its own; and if the backup is not aborted, the error is recorded in the
  error index.
\<close>

theorem scan_error_aborts_or_records:
  assumes "Result_Error r = Some e"
  shows "(ScanError_Pathname e = Root imp \<or> length (ScanError_Pathname e) < length (Root imp) \<longrightarrow>
            importer_record ext imp repoLocation (bc, files) r
              = (bc\<lparr>aborted := True, abortedReason := Some (Err e)\<rparr>, files))
       \<and> (ScanError_Pathname e \<noteq> Root imp \<and> length (Root imp) \<le> length (ScanError_Pathname e) \<longrightarrow>
            aborted (fst (importer_record ext imp repoLocation (bc, files) r)) = aborted bc
            \<and> abortedReason (fst (importer_record ext imp repoLocation (bc, files) r)) = abortedReason bc
            \<and> map_of (erridx (fst (importer_record ext imp repoLocation (bc, files) r)))
                 (ScanError_Pathname e) \<noteq> None
            \<and> (map_of (erridx bc) (ScanError_Pathname e) = None \<longrightarrow>
                 map_of (erridx (fst (importer_record ext imp repoLocation (bc, files) r)))
                   (ScanError_Pathname e)
                 = Some (NewErrorItem (ScanError_Pathname e) (Err e))))
       \<and> (aborted (job_context j) \<longrightarrow>
            aborted (job_context (importerJob ext imp repoLocation excludes slots events j)))
       \<and> (r \<in> set scanner \<and> \<not> skipExcludedPathname excludes r \<and> \<not> aborted bc0
            \<and> finished (importer_run ext imp repoLocation excludes slots events scanner bc0) \<longrightarrow>
            (ScanError_Pathname e = Root imp \<or> length (ScanError_Pathname e) < length (Root imp) \<longrightarrow>
               aborted (job_context (importer_run ext imp repoLocation excludes slots events scanner bc0)))
            \<and> (aborted (job_context (importer_run ext imp repoLocation excludes slots events scanner bc0)) \<longrightarrow>
                 (\<exists>r' \<in> set scanner. \<not> skipExcludedPathname excludes r' \<and> aborts imp r'
                    \<and> abortedReason (job_context (importer_run ext imp repoLocation excludes slots events scanner bc0))
                       = map_option Err (Result_Error r'))
                 \<and> (\<forall>bcE steps.
                       aborted bcE
                       \<and> abortedReason bcE
                          = abortedReason (job_context (importer_run ext imp repoLocation excludes slots events scanner bc0)) \<longrightarrow>
                       (\<forall>c. Backup_end bcE steps \<noteq> Committed c)
                       \<and> (all_steps_succeed steps \<longrightarrow>
                            Backup_end bcE steps
                              = Returned (abortedReason (job_context (importer_run ext imp repoLocation excludes slots events scanner bc0))))
                       \<and> (\<not> all_steps_succeed steps \<longrightarrow>
                            (\<exists>err. Backup_end bcE steps = Returned (Some err)))))
            \<and> (\<not> aborted (job_context (importer_run ext imp repoLocation excludes slots events scanner bc0)) \<longrightarrow>
                 map_of (erridx (job_context (importer_run ext imp repoLocation excludes slots events scanner bc0)))
                   (ScanError_Pathname e) \<noteq> None))"
proof (intro conjI impI)
  assume root: "ScanError_Pathname e = Root imp \<or> length (ScanError_Pathname e) < length (Root imp)"
  then show "importer_record ext imp repoLocation (bc, files) r
      = (bc\<lparr>aborted := True, abortedReason := Some (Err e)\<rparr>, files)"
    using assms by (simp add: importer_record_def)
next
  assume other: "ScanError_Pathname e \<noteq> Root imp \<and> length (Root imp) \<le> length (ScanError_Pathname e)"
  then have eq: "fst (importer_record ext imp repoLocation (bc, files) r)
      = recordError bc (ScanError_Pathname e) (Err e)"
    using assms by (simp add: importer_record_def)
  show "aborted (fst (importer_record ext imp repoLocation (bc, files) r)) = aborted bc"
    "abortedReason (fst (importer_record ext imp repoLocation (bc, files) r)) = abortedReason bc"
    "map_of (erridx (fst (importer_record ext imp repoLocation (bc, files) r)))
                 (ScanError_Pathname e) \<noteq> None"
    unfolding eq using recordError_abort_fields recordError_recorded by blast+
  show "map_of (erridx (fst (importer_record ext imp repoLocation (bc, files) r)))
                   (ScanError_Pathname e)
                 = Some (NewErrorItem (ScanError_Pathname e) (Err e))"
    if "map_of (erridx bc) (ScanError_Pathname e) = None"
    unfolding eq using recordError_recorded that by blast
next
  assume "aborted (job_context j)"
  then show "aborted (job_context (importerJob ext imp repoLocation excludes slots events j))"
    unfolding job_context_def by (rule latch_importerJob)
next
  let ?J = "importer_run ext imp repoLocation excludes slots events scanner bc0"
  assume a: "r \<in> set scanner \<and> \<not> skipExcludedPathname excludes r \<and> \<not> aborted bc0 \<and> finished ?J"
  then have "job_inv imp excludes scanner (start_job scanner (bc0, []))"
    by (simp add: job_inv_start)
  then have inv: "job_inv imp excludes scanner ?J"
    unfolding importer_run_def by (rule job_inv_importerJob)
  from a have todo: "todo ?J = {}" by (simp add: finished_def todo_def)
  have ep: "error_path r = ScanError_Pathname e" using assms by (simp add: error_path_def)
  have ab: "aborts imp r
      \<longleftrightarrow> (ScanError_Pathname e = Root imp \<or> length (ScanError_Pathname e) < length (Root imp))"
    using assms by (simp add: aborts_def)
  from inv a assms todo have rec: "\<not> aborted (job_context ?J) \<longrightarrow>
      \<not> aborts imp r \<and> map_of (erridx (job_context ?J)) (error_path r) \<noteq> None"
    unfolding job_inv_def job_context_def by blast
  {
    assume "ScanError_Pathname e = Root imp \<or> length (ScanError_Pathname e) < length (Root imp)"
    with rec ab show "aborted (job_context ?J)" by blast
  }
  {
    assume ad: "aborted (job_context ?J)"
    with inv show "\<exists>r' \<in> set scanner. \<not> skipExcludedPathname excludes r' \<and> aborts imp r'
                    \<and> abortedReason (job_context ?J) = map_option Err (Result_Error r')"
      unfolding job_inv_def job_context_def by blast
    show "\<forall>bcE steps.
            aborted bcE \<and> abortedReason bcE = abortedReason (job_context ?J) \<longrightarrow>
            (\<forall>c. Backup_end bcE steps \<noteq> Committed c)
            \<and> (all_steps_succeed steps \<longrightarrow>
                 Backup_end bcE steps = Returned (abortedReason (job_context ?J)))
            \<and> (\<not> all_steps_succeed steps \<longrightarrow>
                 (\<exists>err. Backup_end bcE steps = Returned (Some err)))"
    proof (intro allI impI)
      fix bcE :: backup and steps
      assume e: "aborted bcE \<and> abortedReason bcE = abortedReason (job_context ?J)"
      then have "aborted bcE" by simp
      from Backup_end_aborted [OF this, of steps] e Backup_end_failed [of steps bcE]
      show "(\<forall>c. Backup_end bcE steps \<noteq> Committed c)
            \<and> (all_steps_succeed steps \<longrightarrow>
                 Backup_end bcE steps = Returned (abortedReason (job_context ?J)))
            \<and> (\<not> all_steps_succeed steps \<longrightarrow>
                 (\<exists>err. Backup_end bcE steps = Returned (Some err)))"
        by simp
    qed
  }
  {
    assume "\<not> aborted (job_context ?J)"
    with rec ep show "map_of (erridx (job_context ?J)) (ScanError_Pathname e) \<noteq> None" by simp
  }
qed

theorem scan_error_aborts_or_records_witness:
  "finished (home_job all_started_first three_errors)
   \<and> aborted (job_context (home_job all_started_first three_errors))
   \<and> abortedReason (job_context (home_job all_started_first three_errors)) = Some ''permission denied''
   \<and> map fst (erridx (job_context (home_job all_started_first three_errors)))
       = [''/home/user/later.txt'', ''/home/user/notes.txt'']
   \<and> Backup_end (job_context (home_job all_started_first three_errors)) good_steps
       = Returned (Some ''permission denied'')
   \<and> finished (home_job (in_order 3) three_errors)
   \<and> aborted (job_context (home_job (in_order 3) three_errors))
   \<and> map fst (erridx (job_context (home_job (in_order 3) three_errors))) = [''/home/user/notes.txt'']
   \<and> finished (home_job (in_order 1) [scan_error ''/home/user/notes.txt''])
   \<and> aborted (job_context (home_job (in_order 1) [scan_error ''/home/user/notes.txt''])) = False
   \<and> map_of (erridx (job_context (home_job (in_order 1) [scan_error ''/home/user/notes.txt''])))
        ''/home/user/notes.txt''
       = Some \<lparr>Name = ''/home/user/notes.txt'', Error = ''permission denied''\<rparr>
   \<and> importer_record example_externals home_importer ''/repo'' (new_backup, []) (scan_error ''/home/user'')
       = (new_backup\<lparr>aborted := True, abortedReason := Some ''permission denied''\<rparr>, [])"
proof -
  let ?e = "\<lambda>p. \<lparr>ScanError_Pathname = p, Err = ''permission denied''\<rparr>"
  let ?A = "home_job all_started_first three_errors"
  let ?N = "home_job (in_order 1) [scan_error ''/home/user/notes.txt'']"
  have r: "Result_Error (scan_error p) = Some (?e p)" for p
    by (simp add: scan_error_def)
  have root: "ScanError_Pathname (?e ''/home/user'') = Root home_importer"
    by (simp add: home_importer_def)
  have other: "ScanError_Pathname (?e ''/home/user/notes.txt'') \<noteq> Root home_importer
      \<and> length (Root home_importer) \<le> length (ScanError_Pathname (?e ''/home/user/notes.txt''))"
    by (simp add: home_importer_def)
  have mem: "scan_error ''/home/user'' \<in> set three_errors"
    "scan_error ''/home/user/notes.txt'' \<in> set [scan_error ''/home/user/notes.txt'']"
    by (simp_all add: three_errors_def)
  have ex: "\<not> skipExcludedPathname [] x" for x
    by (simp add: skipExcludedPathname_def Let_def)
  have nb: "\<not> aborted new_backup" by (simp add: new_backup_def)
  have fa: "finished ?A" by code_simp
  have fn: "finished ?N" by code_simp
  have ga: "all_steps_succeed good_steps"
    by (simp add: all_steps_succeed_def good_steps_def)
  note t1 = scan_error_aborts_or_records [OF r [of "''/home/user''"], where imp = home_importer
      and ext = example_externals and repoLocation = "''/repo''" and bc = new_backup
      and files = "[]" and excludes = "[]" and slots = 3 and events = all_started_first
      and scanner = three_errors and ?bc0.0 = new_backup, folded home_job_def]
  note t2 = scan_error_aborts_or_records [OF r [of "''/home/user/notes.txt''"], where imp = home_importer
      and ext = example_externals and repoLocation = "''/repo''" and bc = new_backup
      and files = "[]" and excludes = "[]" and slots = 3 and events = "in_order 1"
      and scanner = "[scan_error ''/home/user/notes.txt'']" and ?bc0.0 = new_backup,
      folded home_job_def]
  from t1 root have h0: "importer_record example_externals home_importer ''/repo'' (new_backup, [])
        (scan_error ''/home/user'')
      = (new_backup\<lparr>aborted := True, abortedReason := Some (Err (?e ''/home/user''))\<rparr>, [])"
    by blast
  then have h: "importer_record example_externals home_importer ''/repo'' (new_backup, [])
        (scan_error ''/home/user'')
      = (new_backup\<lparr>aborted := True, abortedReason := Some ''permission denied''\<rparr>, [])"
    by simp
  from t1 root mem(1) ex nb fa have a1: "aborted (job_context ?A)"
    by blast
  with t1 root mem(1) ex nb fa
  have "\<forall>bcE steps.
            aborted bcE \<and> abortedReason bcE = abortedReason (job_context ?A) \<longrightarrow>
            (\<forall>c. Backup_end bcE steps \<noteq> Committed c)
            \<and> (all_steps_succeed steps \<longrightarrow>
                 Backup_end bcE steps = Returned (abortedReason (job_context ?A)))
            \<and> (\<not> all_steps_succeed steps \<longrightarrow>
                 (\<exists>err. Backup_end bcE steps = Returned (Some err)))"
    by blast
  with a1 ga
  have b0: "Backup_end (job_context ?A) good_steps = Returned (abortedReason (job_context ?A))"
    by blast
  have ar: "abortedReason (job_context ?A) = Some ''permission denied''"
    by code_simp
  have ka: "map fst (erridx (job_context ?A)) = [''/home/user/later.txt'', ''/home/user/notes.txt'']"
    by code_simp
  have io: "finished (home_job (in_order 3) three_errors)"
    "aborted (job_context (home_job (in_order 3) three_errors))"
    "map fst (erridx (job_context (home_job (in_order 3) three_errors))) = [''/home/user/notes.txt'']"
    by code_simp+
  have nn: "aborted (job_context ?N) = False"
    by code_simp
  with t2 other mem(2) ex nb fn
  have rn: "map_of (erridx (job_context ?N)) (ScanError_Pathname (?e ''/home/user/notes.txt'')) \<noteq> None"
    by blast
  have nk: "map_of (erridx (job_context ?N)) ''/home/user/notes.txt''
       = Some \<lparr>Name = ''/home/user/notes.txt'', Error = ''permission denied''\<rparr>"
    by code_simp
  from fa a1 ar ka b0 io fn nn nk h show ?thesis by simp
qed

text \<open>
  The claim as stated fails for a path that is not the root but shorter: with the root
  \<open>/home/user\<close>, a scan error on \<open>/home\<close> aborts the backup and is not recorded.
\<close>

theorem error_above_root_aborts:
  "''/home'' \<noteq> Root home_importer
   \<and> importer_record example_externals home_importer ''/repo'' (new_backup, []) (scan_error ''/home'')
     = (new_backup\<lparr>aborted := True, abortedReason := Some ''permission denied''\<rparr>, [])
   \<and> finished (home_job (in_order 1) [scan_error ''/home''])
   \<and> job_context (home_job (in_order 1) [scan_error ''/home''])
     = new_backup\<lparr>aborted := True, abortedReason := Some ''permission denied''\<rparr>
   \<and> erridx (job_context (home_job (in_order 1) [scan_error ''/home''])) = []
   \<and> Backup_end (job_context (home_job (in_order 1) [scan_error ''/home''])) good_steps
     = Returned (Some ''permission denied'')"
proof -
  have 1: "''/home'' \<noteq> Root home_importer" by (simp add: home_importer_def example_importer_def)
  have 2: "importer_record example_externals home_importer ''/repo'' (new_backup, []) (scan_error ''/home'')
     = (new_backup\<lparr>aborted := True, abortedReason := Some ''permission denied''\<rparr>, [])"
    by (simp add: importer_record_def scan_error_def home_importer_def example_importer_def)
  have 3: "finished (home_job (in_order 1) [scan_error ''/home''])" by code_simp
  have 4: "job_context (home_job (in_order 1) [scan_error ''/home''])
     = new_backup\<lparr>aborted := True, abortedReason := Some ''permission denied''\<rparr>"
    by code_simp
  have 5: "erridx (job_context (home_job (in_order 1) [scan_error ''/home''])) = []" by code_simp
  have 6: "Backup_end (job_context (home_job (in_order 1) [scan_error ''/home''])) good_steps
     = Returned (Some ''permission denied'')"
    by code_simp
  from 1 2 3 4 5 6 show ?thesis by blast
qed

section \<open>The tail of a written packfile\<close>

lemma PutPackfile_written:
  assumes "PutPackfile ext pf write_error = Inr (mac, file)"
  shows "\<exists>serializedData encryptedIndex encryptedFooter.
           SerializeData pf = Inr serializedData
           \<and> file = serializedData @ encryptedIndex @ encryptedFooter
                      @ PutUint32 (of_nat (length encryptedFooter))"
proof -
  obtain d where d: "SerializeData pf = Inr d"
    using assms by (cases "SerializeData pf") (auto simp: PutPackfile_def)
  obtain i where i: "SerializeIndex pf = Inr i"
    using assms d by (cases "SerializeIndex pf") (auto simp: PutPackfile_def)
  obtain f where f: "SerializeFooter pf = Inr f"
    using assms d i by (cases "SerializeFooter pf") (auto simp: PutPackfile_def)
  obtain ei where ei: "EncodeBuffer ext i = Inr ei"
    using assms d i f by (cases "EncodeBuffer ext i") (auto simp: PutPackfile_def)
  obtain ef where ef: "EncodeBuffer ext f = Inr ef"
    using assms d i f ei by (cases "EncodeBuffer ext f") (auto simp: PutPackfile_def)
  have "file = d @ ei @ ef @ PutUint32 (of_nat (length ef))"
    using assms d i f ei ef by (cases write_error) (auto simp: PutPackfile_def Let_def)
  with d show ?thesis by blast
qed

lemma PutPackfile_last_four:
  assumes "PutPackfile ext pf write_error = Inr (mac, file)"
  shows "\<exists>encryptedFooter :: bytes.
           drop (length file - 4) file = PutUint32 (of_nat (length encryptedFooter))
           \<and> last file = ucast (drop_bit 24 (of_nat (length encryptedFooter) :: 32 word))"
proof -
  from PutPackfile_written [OF assms] obtain d ei ef where
    written: "file = d @ ei @ ef @ PutUint32 (of_nat (length ef))"
    by blast
  have four: "drop (length file - 4) file = PutUint32 (of_nat (length ef))"
    unfolding written by (simp add: length_PutUint32)
  have one: "last file = ucast (drop_bit 24 (of_nat (length ef) :: 32 word))"
    unfolding written by (simp add: PutUint32_def)
  show ?thesis
    by (rule exI [of _ ef]) (simp only: four one)
qed


section \<open>Errors in the roll-up\<close>

text \<open>
  C8. The claim has every recorded error count once in \<open>below.errors\<close> of every ancestor
  directory, so that the root's counter is the number of recorded errors. The loop
  over the error index leaves at the first item that lies deeper than the directory,
  and the items of the directory that sort after it are not counted. After a scan of
  \<open>/\<close> and \<open>/b\<close> with errors on \<open>/b/x\<close> and \<open>/c\<close>, two errors are
  recorded and the root's \<open>below.errors\<close> is 1: the error on \<open>/c\<close> is lost, because
  \<open>/b/x\<close> sorts before it. With the second error on \<open>/a\<close> instead, which sorts before
  \<open>/b/x\<close>, the root's counter is 2.
\<close>

theorem error_rollup_misses_sibling:
  "map fst (erridx (scanned [scan_directory ''/'', scan_directory ''/b'',
                             scan_error ''/b/x'', scan_error ''/c'']))
     = [''/b/x'', ''/c'']
   \<and> map_sum id snd
        (rollup example_externals
           (scanned [scan_directory ''/'', scan_directory ''/b'',
                     scan_error ''/b/x'', scan_error ''/c'']))
     = Inr (Some \<lparr>Directory_Children = 1, Below_Errors = 1\<rparr>)
   \<and> map_sum id snd
        (rollup example_externals
           (scanned [scan_directory ''/'', scan_directory ''/b'',
                     scan_error ''/b/x'', scan_error ''/a'']))
     = Inr (Some \<lparr>Directory_Children = 1, Below_Errors = 2\<rparr>)"
  by code_simp

end
